theory Spec2Isabelle
  imports Complex_Main
begin

section \<open>Numbers, vectors and the rendering library's helpers\<close>

text \<open>
  The viewer script \<open>src/main.js\<close> keeps its state in module-level variables and in the
  objects of the rendering library (camera, orbit controls, annotation groups). The model
  below is a record of those variables, and every handler of the script is a function from
  state to state.

  JavaScript numbers are modelled as real numbers: rounding of IEEE doubles, NaN and
  signed zeros are outside the model. The only division of the modelled code divides by
  \<open>camMoveDuration\<close>; every call of \<open>moveCameraTo\<close> in the script passes the default
  1500, and the theorem about the tween step assumes a nonzero duration. Distance bounds
  of the orbit controls can be \<open>Infinity\<close>, so they have a type of their own.
\<close>

datatype vec3 = Vector3 (vec_x: real) (vec_y: real) (vec_z: real)

datatype distance = Finite real | Infinity

text \<open>
  Modelled from the spec: the helpers of the rendering library used by the script
  (\<open>THREE.MathUtils.lerp\<close>, \<open>THREE.MathUtils.smoothstep\<close>, \<open>Vector3.lerpVectors\<close>) are
  not under \<open>src/\<close>. They are the linear interpolation and the smoothstep easing the
  specification names, written as the library computes them.
\<close>

definition lerp :: "real \<Rightarrow> real \<Rightarrow> real \<Rightarrow> real" where
  "lerp a b t = (1 - t) * a + t * b"

definition smoothstep :: "real \<Rightarrow> real \<Rightarrow> real \<Rightarrow> real" where
  "smoothstep v lo hi =
     (if v \<le> lo then 0
      else if v \<ge> hi then 1
      else (let u = (v - lo) / (hi - lo) in u * u * (3 - 2 * u)))"

definition lerpVectors :: "vec3 \<Rightarrow> vec3 \<Rightarrow> real \<Rightarrow> vec3" where
  "lerpVectors v1 v2 alpha =
     Vector3 (vec_x v1 + (vec_x v2 - vec_x v1) * alpha)
             (vec_y v1 + (vec_y v2 - vec_y v1) * alpha)
             (vec_z v1 + (vec_z v2 - vec_z v1) * alpha)"

definition set_y :: "vec3 \<Rightarrow> real \<Rightarrow> vec3" where
  "set_y v r = Vector3 (vec_x v) r (vec_z v)"

definition vec_sub :: "vec3 \<Rightarrow> vec3 \<Rightarrow> vec3" where
  "vec_sub a b = Vector3 (vec_x a - vec_x b) (vec_y a - vec_y b) (vec_z a - vec_z b)"


section \<open>Data model\<close>

text \<open>
  An annotation is the \<open>THREE.Group\<close> built by \<open>addAnnotations\<close>: its \<open>userData\<close>
  (title, description, the two targets), its uniform scale (every write is
  \<open>scale.set(n, n, n)\<close>) and the opacity of its fill disc.
\<close>

record annotation =
  title :: string
  description :: string
  targetScale :: real
  targetOpacity :: real
  scale :: real
  fillOpacity :: real

text \<open>One entry of a stage's annotation file, and one entry of \<open>stages.json\<close>.\<close>

record annoData =
  pos :: vec3
  anno_title :: string
  desc :: string
  cameraPos :: "vec3 option"
  cameraLookAt :: "vec3 option"

record stage =
  stage_title :: string
  initialCameraPosition :: vec3
  initialCameraLookAt :: vec3
  splatUrl :: string
  panLock :: bool
  rotationLock :: bool
  minZoom :: "real option"
  maxZoom :: "real option"
  annotationsUrl :: "string option"

text \<open>
  The library's viewer, as far as the script reads and writes it. \<open>camera\<close> and
  \<open>controls\<close> are optional because the script tests both before each use;
  \<open>splatScene\<close> is the scene the viewer shows (none until \<open>addSplatScene\<close> has resolved).
\<close>

record camera_obj =
  position :: vec3

record controls_obj =
  target :: vec3
  minDistance :: distance
  maxDistance :: distance
  maxPolarAngle :: real
  enabled :: bool

record viewer_obj =
  camera :: "camera_obj option"
  controls :: "controls_obj option"
  splatScene :: "string option"
  started :: bool

record dot_obj =
  dot_position :: vec3
  visible :: bool

text \<open>
  The module-level variables. Annotation groups are objects that several variables can
  refer to (\<open>currentAnnotations\<close>, \<open>hoveredAnnotation\<close>), and \<open>hoveredAnnotation\<close> can
  outlive a stage change, so the groups live in a store \<open>heap\<close> and the variables hold
  addresses (indices into the store). Of the DOM only two facts are kept: whether the
  elements \<open>annotationsMenu\<close> and \<open>annotationsList\<close> have been found (they are
  \<open>null\<close> before), since a method call on \<open>null\<close> throws.
\<close>

record state =
  viewer :: "viewer_obj option"
  heap :: "annotation list"
  currentAnnotations :: "nat list"
  hoveredAnnotation :: "nat option"
  constructionStages :: "stage list"
  isLoading :: bool
  isPanLockActive :: bool
  devOverlayVisible :: bool
  camMoveActive :: bool
  camMoveStart :: real
  camMoveDuration :: real
  camStartPos :: vec3
  camStartTarget :: vec3
  camTargetPos :: vec3
  camTargetTarget :: vec3
  movableDot :: "dot_obj option"
  isDraggingDot :: bool
  zoomLockEnabled :: bool
  zoomMinDistance :: distance
  zoomMaxDistance :: distance
  annotationsMenu :: bool
  annotationsList :: bool
  currentAnnotationsData :: "annoData list"
  selectedAnnotationIndex :: int

definition zero_vec :: vec3 where
  "zero_vec = Vector3 0 0 0"

text \<open>The values the variables are declared with (lines 23-80 of the script).\<close>

definition initial_state :: state where
  "initial_state =
     \<lparr> viewer = None, heap = [], currentAnnotations = [], hoveredAnnotation = None,
       constructionStages = [], isLoading = False, isPanLockActive = False,
       devOverlayVisible = False, camMoveActive = False, camMoveStart = 0,
       camMoveDuration = 1500, camStartPos = zero_vec, camStartTarget = zero_vec,
       camTargetPos = zero_vec, camTargetTarget = zero_vec, movableDot = None,
       isDraggingDot = False, zoomLockEnabled = False, zoomMinDistance = Finite 2,
       zoomMaxDistance = Finite 50, annotationsMenu = False, annotationsList = False,
       currentAnnotationsData = [], selectedAnnotationIndex = - 1 \<rparr>"


section \<open>Camera tween\<close>

text \<open>\<open>moveCameraTo\<close> (lines 134-144); \<open>now\<close> is the value of \<open>performance.now()\<close>.\<close>

definition moveCameraTo :: "vec3 \<Rightarrow> vec3 \<Rightarrow> real \<Rightarrow> real \<Rightarrow> state \<Rightarrow> state" where
  "moveCameraTo positionVec lookAtVec duration now s =
     (case viewer s of
        None \<Rightarrow> s
      | Some v \<Rightarrow>
         (case camera v of
            None \<Rightarrow> s
          | Some c \<Rightarrow>
             (case controls v of
                None \<Rightarrow> s
              | Some k \<Rightarrow>
                 s\<lparr> camMoveDuration := duration, camMoveStart := now, camMoveActive := True,
                    camStartPos := position c, camStartTarget := target k,
                    camTargetPos := positionVec, camTargetTarget := lookAtVec \<rparr>)))"

text \<open>
  The tween section of \<open>animate\<close> (lines 810-820). \<open>orbitUpdate\<close> stands for the
  library's \<open>viewer.controls.update()\<close>, which is not under \<open>src/\<close> and is a parameter.
\<close>

definition animate_tween :: "(viewer_obj \<Rightarrow> viewer_obj) \<Rightarrow> real \<Rightarrow> state \<Rightarrow> state" where
  "animate_tween orbitUpdate now s =
     (if camMoveActive s then
        (case viewer s of
           None \<Rightarrow> s
         | Some v \<Rightarrow>
            (case camera v of
               None \<Rightarrow> s
             | Some c \<Rightarrow>
                (case controls v of
                   None \<Rightarrow> s
                 | Some k \<Rightarrow>
                    (let t = min 1 ((now - camMoveStart s) / camMoveDuration s);
                         easedT = smoothstep t 0 1;
                         v1 = v\<lparr> camera := Some (c\<lparr> position :=
                                    lerpVectors (camStartPos s) (camTargetPos s) easedT \<rparr>),
                                 controls := Some (k\<lparr> target :=
                                    lerpVectors (camStartTarget s) (camTargetTarget s) easedT \<rparr>) \<rparr>
                     in s\<lparr> viewer := Some (orbitUpdate v1),
                           camMoveActive := (if t \<ge> 1 then False else camMoveActive s) \<rparr>))))
      else s)"

text \<open>
  The tween step in the words of the specification: the parameter is clamped to
  \<open>[0, 1]\<close>, eased by smoothstep, and position and orbit target are interpolated with
  the same eased parameter.
\<close>

definition clamp :: "real \<Rightarrow> real \<Rightarrow> real \<Rightarrow> real" where
  "clamp v lo hi = max lo (min hi v)"

definition spec_tween_t :: "real \<Rightarrow> state \<Rightarrow> real" where
  "spec_tween_t now s = clamp ((now - camMoveStart s) / camMoveDuration s) 0 1"

definition spec_tween_pose :: "real \<Rightarrow> state \<Rightarrow> vec3 \<times> vec3" where
  "spec_tween_pose now s =
     (let easedT = smoothstep (spec_tween_t now s) 0 1
      in (lerpVectors (camStartPos s) (camTargetPos s) easedT,
          lerpVectors (camStartTarget s) (camTargetTarget s) easedT))"


section \<open>Pan lock\<close>

text \<open>The pan lock section of \<open>animate\<close> (lines 823-835).\<close>

definition animate_panLock :: "state \<Rightarrow> state" where
  "animate_panLock s =
     (if isPanLockActive s then
        (case viewer s of
           None \<Rightarrow> s
         | Some v \<Rightarrow>
            (case controls v of
               None \<Rightarrow> s
             | Some k \<Rightarrow>
                (case camera v of
                   None \<Rightarrow> s
                 | Some c \<Rightarrow>
                    (if vec_y (target k) > 0 then
                       (let deltaY = vec_y (target k)
                        in s\<lparr> viewer := Some (v\<lparr>
                             camera := Some (c\<lparr> position :=
                               set_y (position c) (vec_y (position c) - deltaY) \<rparr>),
                             controls := Some (k\<lparr> target :=
                               set_y (target k) (vec_y (target k) - deltaY) \<rparr>) \<rparr>) \<rparr>)
                     else s))))
      else s)"


section \<open>Annotations: store, targets and the per-frame smoothing\<close>

text \<open>
  \<open>nth_opt xs i\<close> is the JavaScript read \<open>xs[i]\<close>: \<open>undefined\<close> (here \<open>None\<close>) when
  \<open>i\<close> is not an index of the array. \<open>store_update a f\<close> writes through a reference.
\<close>

definition nth_opt :: "'a list \<Rightarrow> int \<Rightarrow> 'a option" where
  "nth_opt xs i = (if 0 \<le> i \<and> nat i < length xs then Some (xs ! nat i) else None)"

definition store_update :: "nat \<Rightarrow> (annotation \<Rightarrow> annotation) \<Rightarrow> annotation list \<Rightarrow> annotation list" where
  "store_update a f h = (if a < length h then h[a := f (h ! a)] else h)"

definition set_targets :: "real \<Rightarrow> real \<Rightarrow> annotation \<Rightarrow> annotation" where
  "set_targets sc opa g = g\<lparr> targetScale := sc, targetOpacity := opa \<rparr>"

text \<open>
  The loop \<open>currentAnnotations.forEach(annotation => { targetScale = 1.0; targetOpacity =
  0.01 })\<close> of \<open>highlightAnnotation\<close> (lines 751-754) and \<open>toggleAnnotationsMenu\<close>
  (lines 663-666).
\<close>

definition reset_targets :: "state \<Rightarrow> state" where
  "reset_targets s =
     s\<lparr> heap := fold (\<lambda>a h. store_update a (set_targets 1 0.01) h) (currentAnnotations s) (heap s) \<rparr>"

text \<open>The group built for one entry of the annotation file (lines 277-307).\<close>

definition new_annotation :: "annoData \<Rightarrow> annotation" where
  "new_annotation annoData =
     \<lparr> title = anno_title annoData, description = desc annoData,
       targetScale = 1, targetOpacity = 0.01, scale = 1, fillOpacity = 0.01 \<rparr>"

text \<open>
  \<open>populateAnnotationsMenu\<close> (lines 679-744): apart from the DOM rows it builds, it stores
  the data. The rows' handlers are \<open>annotationItem_mouseenter\<close>,
  \<open>annotationItem_mouseleave\<close> and \<open>annotationItem_click\<close> below.
\<close>

definition populateAnnotationsMenu :: "annoData list \<Rightarrow> state \<Rightarrow> state" where
  "populateAnnotationsMenu annotations s = s\<lparr> currentAnnotationsData := annotations \<rparr>"

datatype js_error = TypeError

text \<open>
  A handler that can throw returns \<open>Inl (e, s)\<close>, where \<open>s\<close> is the state the exception
  leaves behind (the writes made before the throw persist), or \<open>Inr s\<close>.
\<close>

type_synonym result = "(js_error \<times> state) + state"

definition state_of :: "result \<Rightarrow> state" where
  "state_of r = (case r of Inl (e, s) \<Rightarrow> s | Inr s \<Rightarrow> s)"

text \<open>
  \<open>addAnnotations\<close> (lines 255-311). \<open>fetched\<close> is what the request for the annotation file
  yields: \<open>None\<close> when the request or its decoding fails. Reading \<open>stage.annotationsUrl\<close>
  of a missing stage throws. An empty URL is falsy.
\<close>

definition addAnnotations :: "nat \<Rightarrow> annoData list option \<Rightarrow> state \<Rightarrow> result" where
  "addAnnotations stageIndex fetched s =
     (let s1 = s\<lparr> currentAnnotations := [] \<rparr>
      in case nth_opt (constructionStages s1) (int stageIndex) of
           None \<Rightarrow> Inl (TypeError, s1)
         | Some stage \<Rightarrow>
            (case annotationsUrl stage of
               None \<Rightarrow> Inr s1
             | Some url \<Rightarrow>
                (if url = [] then Inr s1
                 else (case fetched of
                         None \<Rightarrow> Inr s1
                       | Some stageAnnotations \<Rightarrow>
                          Inr (populateAnnotationsMenu stageAnnotations
                                (s1\<lparr> heap := heap s1 @ map new_annotation stageAnnotations,
                                     currentAnnotations :=
                                       [length (heap s1) ..< length (heap s1) + length stageAnnotations] \<rparr>))))))"

text \<open>
  The annotation loop of \<open>animate\<close> (lines 840-864), for one annotation and for all.
  \<open>target || 1.0\<close> replaces a falsy (zero) target.
\<close>

definition animate_annotation :: "annotation \<Rightarrow> annotation" where
  "animate_annotation g =
     (let currentScale = scale g;
          tScale = (if targetScale g = 0 then 1 else targetScale g);
          g1 = (if \<bar>currentScale - tScale\<bar> > 0.001
                then g\<lparr> scale := lerp currentScale tScale 0.1 \<rparr> else g);
          currentOpacity = fillOpacity g1;
          tOpacity = (if targetOpacity g1 = 0 then 0.01 else targetOpacity g1)
      in (if \<bar>currentOpacity - tOpacity\<bar> > 0.001
          then g1\<lparr> fillOpacity := lerp currentOpacity tOpacity 0.1 \<rparr> else g1))"

definition animate_annotations :: "state \<Rightarrow> state" where
  "animate_annotations s =
     (case viewer s of
        None \<Rightarrow> s
      | Some v \<Rightarrow>
         (case camera v of
            None \<Rightarrow> s
          | Some c \<Rightarrow>
             s\<lparr> heap := fold (\<lambda>a h. store_update a animate_annotation h)
                              (currentAnnotations s) (heap s) \<rparr>))"

text \<open>\<open>animate\<close> (lines 806-865): tween, pan lock, annotations, in this order.\<close>

definition animate :: "(viewer_obj \<Rightarrow> viewer_obj) \<Rightarrow> real \<Rightarrow> state \<Rightarrow> state" where
  "animate orbitUpdate now s = animate_annotations (animate_panLock (animate_tween orbitUpdate now s))"


section \<open>Hover\<close>

text \<open>
  A pointer event with what the script reads from it and from its environment: the
  pointer's client coordinates, the bounding rectangle of the viewer container, whether
  the event's target lies in the stages menu, and the results of the two ray casts (does
  the ray hit the movable dot; the index in \<open>currentAnnotations\<close> of the group whose mesh
  is hit first). A ray cast against \<open>currentAnnotations\<close> can only return one of its
  members, so an index outside the list counts as no hit.
\<close>

record pointer_event =
  clientX :: real
  clientY :: real
  rect_left :: real
  rect_top :: real
  rect_width :: real
  rect_height :: real
  inMobileMenu :: bool
  dotHit :: bool
  annotationHit :: "nat option"

definition intersectedGroup :: "pointer_event \<Rightarrow> state \<Rightarrow> nat option" where
  "intersectedGroup ev s =
     (case annotationHit ev of
        None \<Rightarrow> None
      | Some i \<Rightarrow> nth_opt (currentAnnotations s) (int i))"

definition viewer_camera :: "state \<Rightarrow> bool" where
  "viewer_camera s = (case viewer s of None \<Rightarrow> False | Some v \<Rightarrow> camera v \<noteq> None)"

text \<open>
  The test of line 319 of the script: the pointer is outside the container's rectangle
  (\<open>rect.right\<close> is \<open>left + width\<close>, \<open>rect.bottom\<close> is \<open>top + height\<close>).
\<close>

definition pointer_outside :: "pointer_event \<Rightarrow> bool" where
  "pointer_outside ev =
     (clientX ev < rect_left ev \<or> clientX ev > rect_left ev + rect_width ev
      \<or> clientY ev < rect_top ev \<or> clientY ev > rect_top ev + rect_height ev)"

text \<open>\<open>onAnnotationHover\<close> (lines 313-353).\<close>

definition onAnnotationHover :: "pointer_event \<Rightarrow> state \<Rightarrow> state" where
  "onAnnotationHover ev s =
     (if pointer_outside ev
      then (case hoveredAnnotation s of
              None \<Rightarrow> s
            | Some h \<Rightarrow>
               s\<lparr> heap := store_update h (\<lambda>g. g\<lparr> scale := 1, fillOpacity := 0.01 \<rparr>) (heap s),
                  hoveredAnnotation := None \<rparr>)
      else if \<not> viewer_camera s then s
      else
        (let hit = intersectedGroup ev s;
             s1 = (case hoveredAnnotation s of
                     None \<Rightarrow> s
                   | Some h \<Rightarrow>
                      (if Some h \<noteq> hit
                       then s\<lparr> heap := store_update h (set_targets 1 0.01) (heap s),
                               hoveredAnnotation := None \<rparr>
                       else s))
         in (case hit of
               None \<Rightarrow> s1
             | Some g \<Rightarrow>
                (if hoveredAnnotation s1 \<noteq> Some g
                 then s1\<lparr> hoveredAnnotation := Some g,
                          heap := store_update g (set_targets 1.5 0.8) (heap s1) \<rparr>
                 else s1))))"


section \<open>Selection and the annotations menu\<close>

text \<open>
  \<open>highlightAnnotation\<close> (lines 746-786). \<open>annotationsList.querySelectorAll\<close> throws
  while \<open>annotationsList\<close> is \<open>null\<close>. The parameter \<open>showModal\<close> shadows the function
  of the same name, so the call \<open>showModal(...)\<close> of line 783 calls a boolean and throws.
\<close>

definition highlightAnnotation :: "int \<Rightarrow> bool \<Rightarrow> real \<Rightarrow> state \<Rightarrow> result" where
  "highlightAnnotation index showModal now s =
     (let s1 = reset_targets (s\<lparr> selectedAnnotationIndex := index \<rparr>)
      in if \<not> annotationsList s1 then Inl (TypeError, s1)
         else
           (case nth_opt (currentAnnotations s1) index of
              None \<Rightarrow> Inr s1
            | Some selectedAnnotation \<Rightarrow>
               (let s2 = s1\<lparr> heap := store_update selectedAnnotation (set_targets 2 1) (heap s1) \<rparr>;
                    s3 = (case nth_opt (currentAnnotationsData s2) index of
                            None \<Rightarrow> s2
                          | Some data \<Rightarrow>
                             (case cameraPos data of
                                None \<Rightarrow> s2
                              | Some p \<Rightarrow>
                                 (case cameraLookAt data of
                                    None \<Rightarrow> s2
                                  | Some l \<Rightarrow> moveCameraTo p l 1500 now s2)))
                in if showModal \<and> nth_opt (currentAnnotationsData s3) index \<noteq> None
                   then Inl (TypeError, s3) else Inr s3)))"

text \<open>
  \<open>toggleAnnotationsMenu\<close> (lines 648-677). \<open>annotationsMenu.classList\<close> throws while
  \<open>annotationsMenu\<close> is \<open>null\<close>. When the menu is shown and its list is empty, the script
  populates it again from \<open>currentAnnotationsData\<close>, which stores the data that are stored
  already; the rows and their CSS classes are not modelled.
\<close>

definition toggleAnnotationsMenu :: "bool \<Rightarrow> state \<Rightarrow> result" where
  "toggleAnnotationsMenu show s =
     (if \<not> annotationsMenu s then Inl (TypeError, s)
      else if show then Inr (populateAnnotationsMenu (currentAnnotationsData s) s)
      else
        (let s1 = reset_targets s
         in if \<not> annotationsList s1 then Inl (TypeError, s1)
            else Inr (s1\<lparr> selectedAnnotationIndex := - 1 \<rparr>)))"

text \<open>
  The handlers of the menu row with index \<open>index\<close> (lines 709-738). The array the row's
  click handler reads is the one \<open>populateAnnotationsMenu\<close> was called with, which is
  \<open>currentAnnotationsData\<close>.
\<close>

definition annotationItem_mouseenter :: "nat \<Rightarrow> state \<Rightarrow> state" where
  "annotationItem_mouseenter index s =
     (case nth_opt (currentAnnotations s) (int index) of
        None \<Rightarrow> s
      | Some a \<Rightarrow> s\<lparr> heap := store_update a (set_targets 1.5 0.8) (heap s) \<rparr>)"

definition annotationItem_mouseleave :: "nat \<Rightarrow> state \<Rightarrow> state" where
  "annotationItem_mouseleave index s =
     (if int index \<noteq> selectedAnnotationIndex s then
        (case nth_opt (currentAnnotations s) (int index) of
           None \<Rightarrow> s
         | Some a \<Rightarrow> s\<lparr> heap := store_update a (set_targets 1 0.01) (heap s) \<rparr>)
      else s)"

definition annotationItem_click :: "nat \<Rightarrow> real \<Rightarrow> state \<Rightarrow> result" where
  "annotationItem_click index now s =
     (case highlightAnnotation (int index) False now s of
        Inl e \<Rightarrow> Inl e
      | Inr s1 \<Rightarrow>
         (case nth_opt (currentAnnotationsData s1) (int index) of
            None \<Rightarrow> Inr s1
          | Some data \<Rightarrow>
             (case cameraPos data of
                None \<Rightarrow> Inr s1
              | Some p \<Rightarrow>
                 (case cameraLookAt data of
                    None \<Rightarrow> Inr s1
                  | Some l \<Rightarrow> Inr (moveCameraTo p l 1500 now s1)))))"

text \<open>\<open>initializeAnnotationsMenu\<close> (lines 595-646), once both elements exist.\<close>

definition initializeAnnotationsMenu :: "state \<Rightarrow> state" where
  "initializeAnnotationsMenu s = s\<lparr> annotationsMenu := True, annotationsList := True \<rparr>"


section \<open>Pointer-down: annotations and the movable dot\<close>

text \<open>\<open>Array.indexOf\<close>: the first index of the element, \<open>-1\<close> when it is absent.\<close>

fun indexOf :: "nat list \<Rightarrow> nat \<Rightarrow> int" where
  "indexOf [] g = - 1"
| "indexOf (a # as) g =
     (if a = g then 0 else (let r = indexOf as g in if r = - 1 then - 1 else r + 1))"

definition disable_controls :: "state \<Rightarrow> state" where
  "disable_controls s =
     (case viewer s of
        None \<Rightarrow> s
      | Some v \<Rightarrow>
         (case controls v of
            None \<Rightarrow> s
          | Some k \<Rightarrow> s\<lparr> viewer := Some (v\<lparr> controls := Some (k\<lparr> enabled := False \<rparr>) \<rparr>) \<rparr>))"

text \<open>
  \<open>onAnnotationPointerDown\<close> (lines 355-447). The second component tells whether the
  handler called \<open>event.stopImmediatePropagation()\<close>, which keeps the later listeners of
  the same element from running. The test \<open>g < length (heap s)\<close> only says that the
  reference is not dangling, which no JavaScript reference is.
\<close>

definition onAnnotationPointerDown :: "pointer_event \<Rightarrow> real \<Rightarrow> state \<Rightarrow> result \<times> bool" where
  "onAnnotationPointerDown ev now s =
     (if \<not> viewer_camera s then (Inr s, False)
      else if inMobileMenu ev then (Inr s, False)
      else
        (let clickX = clientX ev - rect_left ev;
             clickY = clientY ev - rect_top ev
         in if clickX > rect_width ev - 150 \<and> clickY < 80 then (Inr s, False)
            else if (case movableDot s of None \<Rightarrow> False | Some d \<Rightarrow> visible d) \<and> dotHit ev
            then (Inr s, False)
            else
              (case intersectedGroup ev s of
                 None \<Rightarrow> (Inr s, False)
               | Some g \<Rightarrow>
                  (if g < length (heap s) \<and> title (heap s ! g) \<noteq> [] then
                     (let s1 = disable_controls s;
                          index = indexOf (currentAnnotations s1) g
                      in if index \<noteq> - 1 then
                           (case toggleAnnotationsMenu True s1 of
                              Inl e \<Rightarrow> (Inl e, False)
                            | Inr s2 \<Rightarrow>
                               (case highlightAnnotation index False now s2 of
                                  Inl e \<Rightarrow> (Inl e, False)
                                | Inr s3 \<Rightarrow> (Inr s3, True)))
                         else (Inr s1, True))
                   else (Inr s, False)))))"

text \<open>\<open>onDotPointerDown\<close> (lines 546-567); the drag plane is not modelled.\<close>

definition onDotPointerDown :: "pointer_event \<Rightarrow> state \<Rightarrow> state" where
  "onDotPointerDown ev s =
     (if \<not> viewer_camera s \<or> movableDot s = None then s
      else if dotHit ev then disable_controls (s\<lparr> isDraggingDot := True \<rparr>)
      else s)"

text \<open>
  A pointer-down on the viewer container: \<open>init\<close> registers \<open>onAnnotationPointerDown\<close>
  (line 89) before \<open>onDotPointerDown\<close> (line 97), both for the capture phase of the same
  element, so they run in this order. An exception in the first listener is reported and
  does not keep the second from running.
\<close>

definition pointerdown :: "pointer_event \<Rightarrow> real \<Rightarrow> state \<Rightarrow> state" where
  "pointerdown ev now s =
     (case onAnnotationPointerDown ev now s of
        (r, stopped) \<Rightarrow> (if stopped then state_of r else onDotPointerDown ev (state_of r)))"

text \<open>The \<open>pointerup\<close> listener (lines 90-93).\<close>

definition pointerup :: "state \<Rightarrow> state" where
  "pointerup s =
     (case viewer s of
        None \<Rightarrow> s
      | Some v \<Rightarrow>
         (case controls v of
            None \<Rightarrow> s
          | Some k \<Rightarrow> s\<lparr> viewer := Some (v\<lparr> controls := Some (k\<lparr> enabled := True \<rparr>) \<rparr>) \<rparr>))
       \<lparr> isDraggingDot := False \<rparr>"

text \<open>\<open>createMovableDot\<close> (lines 493-515) and the dev button (lines 1061-1066).\<close>

definition createMovableDot :: "state \<Rightarrow> state" where
  "createMovableDot s =
     s\<lparr> movableDot := Some \<lparr> dot_position = zero_vec, visible = devOverlayVisible s \<rparr> \<rparr>"

definition devButton_click :: "state \<Rightarrow> state" where
  "devButton_click s =
     (let s1 = s\<lparr> devOverlayVisible := \<not> devOverlayVisible s \<rparr>
      in case movableDot s1 of
           None \<Rightarrow> s1
         | Some d \<Rightarrow> s1\<lparr> movableDot := Some (d\<lparr> visible := devOverlayVisible s1 \<rparr>) \<rparr>)"


section \<open>Zoom lock\<close>

text \<open>\<open>window.setZoomLock\<close> and \<open>window.clearZoomLock\<close> (lines 56-74).\<close>

definition set_distances :: "distance \<Rightarrow> distance \<Rightarrow> state \<Rightarrow> state" where
  "set_distances lo hi s =
     (case viewer s of
        None \<Rightarrow> s
      | Some v \<Rightarrow>
         (case controls v of
            None \<Rightarrow> s
          | Some k \<Rightarrow>
             s\<lparr> viewer := Some (v\<lparr> controls := Some (k\<lparr> minDistance := lo, maxDistance := hi \<rparr>) \<rparr>) \<rparr>))"

definition setZoomLock :: "distance \<Rightarrow> distance \<Rightarrow> state \<Rightarrow> state" where
  "setZoomLock minDist maxDist s =
     set_distances minDist maxDist
       (s\<lparr> zoomLockEnabled := True, zoomMinDistance := minDist, zoomMaxDistance := maxDist \<rparr>)"

definition clearZoomLock :: "state \<Rightarrow> state" where
  "clearZoomLock s = set_distances (Finite 0) Infinity (s\<lparr> zoomLockEnabled := False \<rparr>)"

text \<open>The distance bounds of the live orbit controls, when there are any.\<close>

definition distance_bounds :: "state \<Rightarrow> (distance \<times> distance) option" where
  "distance_bounds s =
     (case viewer s of
        None \<Rightarrow> None
      | Some v \<Rightarrow>
         (case controls v of
            None \<Rightarrow> None
          | Some k \<Rightarrow> Some (minDistance k, maxDistance k)))"


section \<open>Loading a stage\<close>

text \<open>
  Modelled from the spec: the library's \<open>Viewer\<close> constructor and \<open>dispose\<close> are not
  under \<open>src/\<close>. A new viewer has a camera at the stage's initial pose and orbit controls
  that are unrestricted (distance bounds \<open>(0, \<infinity>)\<close>, polar angle up to \<open>\<pi>\<close>), and shows
  no scene yet; a disposed viewer has lost camera, controls and scene.
\<close>

definition new_Viewer :: "stage \<Rightarrow> viewer_obj" where
  "new_Viewer stage =
     \<lparr> camera = Some \<lparr> position = initialCameraPosition stage \<rparr>,
       controls = Some \<lparr> target = initialCameraLookAt stage, minDistance = Finite 0,
                         maxDistance = Infinity, maxPolarAngle = pi, enabled = True \<rparr>,
       splatScene = None, started = False \<rparr>"

definition dispose :: "viewer_obj \<Rightarrow> viewer_obj" where
  "dispose v = v\<lparr> camera := None, controls := None, splatScene := None, started := False \<rparr>"

text \<open>
  \<open>loadStage\<close> (lines 147-225) is asynchronous. \<open>loadStage_begin\<close> is its synchronous
  prefix, up to the first \<open>await\<close> (line 181): the guard, the disposal of the old viewer,
  the construction of the new one. A missing stage throws at line 174, which the
  \<open>catch\<close> absorbs and the \<open>finally\<close> block follows.
\<close>

definition loadStage_begin :: "nat \<Rightarrow> state \<Rightarrow> state" where
  "loadStage_begin index s =
     (if isLoading s then s
      else
        (let s1 = s\<lparr> isLoading := True \<rparr>;
             s2 = (case viewer s1 of
                     None \<Rightarrow> s1
                   | Some v \<Rightarrow> s1\<lparr> viewer := Some (dispose v) \<rparr>)
         in case nth_opt (constructionStages s2) (int index) of
              None \<Rightarrow> s2\<lparr> isLoading := False \<rparr>
            | Some stage \<Rightarrow> s2\<lparr> viewer := Some (new_Viewer stage) \<rparr>))"

text \<open>
  What the awaited operations yield: the scene fails to load, or it loads and the
  request for the annotation file yields \<open>fetched\<close>.
\<close>

datatype load_outcome = SceneFailed | SceneLoaded "annoData list option"

text \<open>The stage settings applied once the scene has loaded (lines 185-203).\<close>

definition apply_stage_settings :: "stage \<Rightarrow> state \<Rightarrow> result" where
  "apply_stage_settings stage s =
     (case viewer s of
        None \<Rightarrow> Inl (TypeError, s)
      | Some v \<Rightarrow>
         (let s1 = s\<lparr> viewer := Some (v\<lparr> splatScene := Some (splatUrl stage), started := True \<rparr>),
                     isPanLockActive := panLock stage \<rparr>
          in case controls v of
               None \<Rightarrow> Inl (TypeError, s1)
             | Some k \<Rightarrow>
                (let k1 = k\<lparr> maxPolarAngle := (if rotationLock stage then pi / 2 else pi) \<rparr>;
                     k2 = (case minZoom stage of
                             Some lo \<Rightarrow>
                               (case maxZoom stage of
                                  Some hi \<Rightarrow> k1\<lparr> minDistance := Finite lo, maxDistance := Finite hi \<rparr>
                                | None \<Rightarrow>
                                   (if zoomLockEnabled s1
                                    then k1\<lparr> minDistance := zoomMinDistance s1,
                                             maxDistance := zoomMaxDistance s1 \<rparr>
                                    else k1))
                           | None \<Rightarrow>
                              (if zoomLockEnabled s1
                               then k1\<lparr> minDistance := zoomMinDistance s1,
                                        maxDistance := zoomMaxDistance s1 \<rparr>
                               else k1))
                 in Inr (s1\<lparr> viewer := Some (v\<lparr> splatScene := Some (splatUrl stage), started := True,
                                                controls := Some k2 \<rparr>) \<rparr>))))"

text \<open>
  The rest of \<open>loadStage\<close>, from the first \<open>await\<close> on (lines 181-224). Every exception
  ends in the \<open>catch\<close> block; the \<open>finally\<close> block clears \<open>isLoading\<close>.
\<close>

definition loadStage_resume :: "nat \<Rightarrow> load_outcome \<Rightarrow> state \<Rightarrow> state" where
  "loadStage_resume index outcome s =
     (case outcome of
        SceneFailed \<Rightarrow> s\<lparr> isLoading := False \<rparr>
      | SceneLoaded fetched \<Rightarrow>
         (case nth_opt (constructionStages s) (int index) of
            None \<Rightarrow> s\<lparr> isLoading := False \<rparr>
          | Some stage \<Rightarrow>
             (case apply_stage_settings stage s of
                Inl (e, s1) \<Rightarrow> s1\<lparr> isLoading := False \<rparr>
              | Inr s1 \<Rightarrow>
                 (case addAnnotations index fetched s1 of
                    Inl (e, s2) \<Rightarrow> s2\<lparr> isLoading := False \<rparr>
                  | Inr s2 \<Rightarrow> (createMovableDot s2)\<lparr> isLoading := False \<rparr>))))"


section \<open>The script as a transition system\<close>

text \<open>
  Everything that can happen to the state: a stage list arrives (\<open>init\<close>, line 105), the
  menu elements are found, a stage load begins or resumes, pointer and menu events, the
  two zoom lock helpers, the dev button, and an animation frame. A pointer move runs
  \<open>onAnnotationHover\<close> (the throttle only drops events); \<open>onDotPointerMove\<close> moves
  nothing but the dot along its drag plane and is left out. The continuation of a load
  runs only while the load is in flight.
\<close>

datatype event =
    StagesFetched "stage list"
  | MenuInitialized
  | LoadStageBegin nat
  | LoadStageResume nat load_outcome
  | PointerMove pointer_event
  | PointerDown pointer_event real
  | PointerUp
  | ItemMouseEnter nat
  | ItemMouseLeave nat
  | ItemClick nat real
  | ToggleMenu bool
  | SetZoomLock distance distance
  | ClearZoomLock
  | DevButton
  | Frame real

fun step :: "(viewer_obj \<Rightarrow> viewer_obj) \<Rightarrow> event \<Rightarrow> state \<Rightarrow> state" where
  "step orbitUpdate (StagesFetched stages) s = s\<lparr> constructionStages := stages \<rparr>"
| "step orbitUpdate MenuInitialized s = initializeAnnotationsMenu s"
| "step orbitUpdate (LoadStageBegin index) s = loadStage_begin index s"
| "step orbitUpdate (LoadStageResume index outcome) s =
     (if isLoading s then loadStage_resume index outcome s else s)"
| "step orbitUpdate (PointerMove ev) s = onAnnotationHover ev s"
| "step orbitUpdate (PointerDown ev now) s = pointerdown ev now s"
| "step orbitUpdate PointerUp s = pointerup s"
| "step orbitUpdate (ItemMouseEnter index) s = annotationItem_mouseenter index s"
| "step orbitUpdate (ItemMouseLeave index) s = annotationItem_mouseleave index s"
| "step orbitUpdate (ItemClick index now) s = state_of (annotationItem_click index now s)"
| "step orbitUpdate (ToggleMenu show) s = state_of (toggleAnnotationsMenu show s)"
| "step orbitUpdate (SetZoomLock minDist maxDist) s = setZoomLock minDist maxDist s"
| "step orbitUpdate ClearZoomLock s = clearZoomLock s"
| "step orbitUpdate DevButton s = devButton_click s"
| "step orbitUpdate (Frame now) s = animate orbitUpdate now s"

definition run :: "(viewer_obj \<Rightarrow> viewer_obj) \<Rightarrow> event list \<Rightarrow> state \<Rightarrow> state" where
  "run orbitUpdate events s = fold (step orbitUpdate) events s"


section \<open>Observations and example states\<close>

text \<open>The camera pose: camera position and orbit target, when the viewer has both.\<close>

definition pose :: "state \<Rightarrow> (vec3 \<times> vec3) option" where
  "pose s =
     (case viewer s of
        None \<Rightarrow> None
      | Some v \<Rightarrow>
         (case camera v of
            None \<Rightarrow> None
          | Some c \<Rightarrow>
             (case controls v of
                None \<Rightarrow> None
              | Some k \<Rightarrow> Some (position c, target k))))"

text \<open>
  A stage list with two stages (the first with pan lock, rotation lock, its own zoom range
  and an annotation file, the second with none of these), an annotation file with two
  entries, and the state the script is in once the first stage has loaded.
\<close>

definition example_stages :: "stage list" where
  "example_stages =
     [\<lparr> stage_title = ''Foundation'', initialCameraPosition = Vector3 0 (- 5) 10,
        initialCameraLookAt = Vector3 0 0 0, splatUrl = ''stage0.ksplat'', panLock = True,
        rotationLock = True, minZoom = Some 5, maxZoom = Some 20,
        annotationsUrl = Some ''annotations0.json'' \<rparr>,
      \<lparr> stage_title = ''Roof'', initialCameraPosition = Vector3 0 (- 8) 12,
        initialCameraLookAt = Vector3 0 (- 1) 0, splatUrl = ''stage1.ksplat'', panLock = False,
        rotationLock = False, minZoom = None, maxZoom = None, annotationsUrl = None \<rparr>]"

definition example_annotations :: "annoData list" where
  "example_annotations =
     [\<lparr> pos = Vector3 1 0 0, anno_title = ''Door'', desc = ''Main entrance'',
        cameraPos = Some (Vector3 0 0 5), cameraLookAt = Some (Vector3 1 0 0) \<rparr>,
      \<lparr> pos = Vector3 2 (- 1) 0, anno_title = ''Window'', desc = ''East window'',
        cameraPos = None, cameraLookAt = None \<rparr>]"

definition example_camera :: camera_obj where
  "example_camera = \<lparr> position = Vector3 0 (- 5) 10 \<rparr>"

definition example_controls :: controls_obj where
  "example_controls =
     \<lparr> target = Vector3 0 0 0, minDistance = Finite 5, maxDistance = Finite 20,
       maxPolarAngle = pi / 2, enabled = True \<rparr>"

definition example_viewer :: viewer_obj where
  "example_viewer =
     \<lparr> camera = Some example_camera, controls = Some example_controls,
       splatScene = Some ''stage0.ksplat'', started = True \<rparr>"

definition example_loaded :: state where
  "example_loaded =
     \<lparr> viewer = Some example_viewer,
       heap = map new_annotation example_annotations,
       currentAnnotations = [0, 1], hoveredAnnotation = None,
       constructionStages = example_stages, isLoading = False, isPanLockActive = True,
       devOverlayVisible = False, camMoveActive = False, camMoveStart = 0,
       camMoveDuration = 1500, camStartPos = zero_vec, camStartTarget = zero_vec,
       camTargetPos = zero_vec, camTargetTarget = zero_vec,
       movableDot = Some \<lparr> dot_position = zero_vec, visible = False \<rparr>,
       isDraggingDot = False, zoomLockEnabled = False, zoomMinDistance = Finite 2,
       zoomMaxDistance = Finite 50, annotationsMenu = True, annotationsList = True,
       currentAnnotationsData = example_annotations, selectedAnnotationIndex = - 1 \<rparr>"

text \<open>The events that lead from the initial state to \<open>example_loaded\<close>.\<close>

definition example_events :: "event list" where
  "example_events =
     [StagesFetched example_stages, MenuInitialized, LoadStageBegin 0,
      LoadStageResume 0 (SceneLoaded (Some example_annotations))]"

text \<open>The same state with the orbit target below the ground plane (\<open>y = 2\<close>).\<close>

definition example_underground :: state where
  "example_underground =
     example_loaded\<lparr> viewer := Some (example_viewer\<lparr>
        camera := Some \<lparr> position = Vector3 0 (- 3) 10 \<rparr>,
        controls := Some (example_controls\<lparr> target := Vector3 1 2 3 \<rparr>) \<rparr>) \<rparr>"

text \<open>A tween towards the first annotation's camera hint, started at time 1000.\<close>

definition example_tween :: state where
  "example_tween = moveCameraTo (Vector3 0 0 5) (Vector3 1 0 0) 1500 1000 example_loaded"


text \<open>
  The three tiers of targets: idle \<open>(1.0, 0.01)\<close>, hovered \<open>(1.5, 0.8)\<close>, selected
  \<open>(2.0, 1.0)\<close>.
\<close>

definition tier_ok :: "annotation \<Rightarrow> bool" where
  "tier_ok g =
     ((targetScale g = 1 \<and> targetOpacity g = 0.01)
      \<or> (targetScale g = 1.5 \<and> targetOpacity g = 0.8)
      \<or> (targetScale g = 2 \<and> targetOpacity g = 1))"

text \<open>
  The references of \<open>currentAnnotations\<close> are distinct and point into the store, as
  \<open>addAnnotations\<close> makes them.
\<close>

definition refs_ok :: "state \<Rightarrow> bool" where
  "refs_ok s =
     (distinct (currentAnnotations s)
      \<and> list_all (\<lambda>a. a < length (heap s)) (currentAnnotations s))"

text \<open>The targets of the annotation with index \<open>i\<close> of the current stage.\<close>

definition targets_at :: "state \<Rightarrow> int \<Rightarrow> (real \<times> real) option" where
  "targets_at s i =
     (case nth_opt (currentAnnotations s) i of
        None \<Rightarrow> None
      | Some a \<Rightarrow>
         (case nth_opt (heap s) (int a) of
            None \<Rightarrow> None
          | Some g \<Rightarrow> Some (targetScale g, targetOpacity g)))"

text \<open>The live values of that annotation: scale and fill opacity.\<close>

definition visual_at :: "state \<Rightarrow> int \<Rightarrow> (real \<times> real) option" where
  "visual_at s i =
     (case nth_opt (currentAnnotations s) i of
        None \<Rightarrow> None
      | Some a \<Rightarrow>
         (case nth_opt (heap s) (int a) of
            None \<Rightarrow> None
          | Some g \<Rightarrow> Some (scale g, fillOpacity g)))"

text \<open>The variables of the camera tween, and the scene the viewer shows.\<close>

definition tween_of :: "state \<Rightarrow> bool \<times> real \<times> real \<times> vec3 \<times> vec3 \<times> vec3 \<times> vec3" where
  "tween_of s =
     (camMoveActive s, camMoveStart s, camMoveDuration s, camStartPos s, camStartTarget s,
      camTargetPos s, camTargetTarget s)"

definition scene :: "state \<Rightarrow> string option" where
  "scene s = (case viewer s of None \<Rightarrow> None | Some v \<Rightarrow> splatScene v)"

text \<open>
  The zoom range in the words of the specification: the stage's own range, else the
  global fallback when one is set, else unrestricted.
\<close>

definition spec_zoom_range :: "stage \<Rightarrow> state \<Rightarrow> distance \<times> distance" where
  "spec_zoom_range stage s =
     (if minZoom stage \<noteq> None \<and> maxZoom stage \<noteq> None
      then (Finite (the (minZoom stage)), Finite (the (maxZoom stage)))
      else if zoomLockEnabled s then (zoomMinDistance s, zoomMaxDistance s)
      else (Finite 0, Infinity))"

text \<open>
  A pointer event at \<open>(px, py)\<close> over a viewer container that occupies the rectangle from
  \<open>(0, 0)\<close> to \<open>(800, 600)\<close>, outside the stages menu.
\<close>

definition pointer_at :: "real \<Rightarrow> real \<Rightarrow> bool \<Rightarrow> nat option \<Rightarrow> pointer_event" where
  "pointer_at px py onDot hit =
     \<lparr> clientX = px, clientY = py, rect_left = 0, rect_top = 0, rect_width = 800,
       rect_height = 600, inMobileMenu = False, dotHit = onDot, annotationHit = hit \<rparr>"

text \<open>The first annotation selected, at time 1000.\<close>

definition example_selected :: state where
  "example_selected = state_of (highlightAnnotation 0 False 1000 example_loaded)"

text \<open>
  The pointer moves onto the first annotation and one frame passes: the annotation is the
  hovered one, with targets \<open>(1.5, 0.8)\<close>, and has grown by one smoothing step.
\<close>

definition example_hovered :: state where
  "example_hovered =
     example_loaded\<lparr> hoveredAnnotation := Some 0,
       heap := [(new_annotation (example_annotations ! 0))\<lparr> targetScale := 1.5,
                   targetOpacity := 0.8, scale := 1.05, fillOpacity := 0.089 \<rparr>,
                new_annotation (example_annotations ! 1)] \<rparr>"

definition example_hover_events :: "event list" where
  "example_hover_events =
     example_events @ [PointerMove (pointer_at 400 300 False (Some 0)), Frame 16]"


text \<open>Every annotation group of the store has its targets in one of the three tiers.\<close>

definition tiers_ok :: "state \<Rightarrow> bool" where
  "tiers_ok s = list_all tier_ok (heap s)"


text \<open>
  The indices of the current stage whose annotation is at the selected tier; the relation
  between two stores of which the second has no selected annotation that the first has
  not, and between two states (\<open>quiet\<close>) that differ by such a step.
\<close>

definition is_selected :: "annotation \<Rightarrow> bool" where
  "is_selected g = (targetScale g = 2 \<and> targetOpacity g = 1)"

definition selected_indices :: "state \<Rightarrow> nat list" where
  "selected_indices s =
     filter (\<lambda>i. targets_at s (int i) = Some (2, 1)) [0 ..< length (currentAnnotations s)]"

definition no_new_selected :: "annotation list \<Rightarrow> annotation list \<Rightarrow> bool" where
  "no_new_selected h h' = list_all2 (\<lambda>g g'. is_selected g' \<longrightarrow> is_selected g) h h'"

definition one_selected :: "state \<Rightarrow> bool" where
  "one_selected s = (length (selected_indices s) \<le> 1)"

definition quiet :: "state \<Rightarrow> state \<Rightarrow> bool" where
  "quiet s s' =
     (currentAnnotations s' = currentAnnotations s \<and> no_new_selected (heap s) (heap s'))"


text \<open>The duration of the tween is the default of \<open>moveCameraTo\<close>.\<close>

definition default_duration :: "state \<Rightarrow> bool" where
  "default_duration s = (camMoveDuration s = 1500)"


section \<open>Properties of the camera tween\<close>

lemma pose_SomeD:
  "pose s = Some (p, q) \<Longrightarrow>
     \<exists>v c k. viewer s = Some v \<and> camera v = Some c \<and> controls v = Some k
       \<and> position c = p \<and> target k = q"
  by (auto simp: pose_def split: option.splits)

lemma example_loaded_reachable: "run id example_events initial_state = example_loaded"
  by (simp add: example_events_def example_loaded_def run_def initial_state_def example_stages_def
      example_annotations_def example_viewer_def example_camera_def example_controls_def
      initializeAnnotationsMenu_def loadStage_begin_def loadStage_resume_def nth_opt_def
      new_Viewer_def apply_stage_settings_def addAnnotations_def populateAnnotationsMenu_def
      createMovableDot_def Let_def upt_rec)

text \<open>
  The script takes only the minimum with 1; the lower clamp of the specification is done by
  smoothstep, which is 0 below 0. So the eased parameter and the test for the end of the
  tween are those of the clamped parameter.
\<close>

lemma smoothstep_min: "smoothstep (min 1 r) 0 1 = smoothstep r 0 1"
  by (auto simp: smoothstep_def min_def)

lemma smoothstep_clamp: "smoothstep (clamp r 0 1) 0 1 = smoothstep r 0 1"
  by (auto simp: smoothstep_def clamp_def min_def max_def)

lemma clamp_unit_cases:
  "(clamp r 0 1 < 1) = (r < 1)" "(clamp r 0 1 = 1) = (1 \<le> r)" "(clamp r 0 1 = 0) = (r \<le> 0)"
  by (auto simp: clamp_def min_def max_def)

lemma smoothstep_outside:
  "1 \<le> r \<Longrightarrow> smoothstep r 0 1 = 1" "r \<le> 0 \<Longrightarrow> smoothstep r 0 1 = 0"
  by (auto simp: smoothstep_def)

lemma lerpVectors_endpoints: "lerpVectors a b 1 = b" "lerpVectors a b 0 = a"
  by (simp_all add: lerpVectors_def)

text \<open>The eased parameter stays in \<open>[0, 1]\<close>: the interpolation does not overshoot.\<close>

lemma smoothstep_unit_range: "0 \<le> smoothstep r 0 1 \<and> smoothstep r 0 1 \<le> 1"
proof (cases "r \<le> 0 \<or> 1 \<le> r")
  case True
  then show ?thesis by (auto simp: smoothstep_def)
next
  case False
  then have r: "0 < r" "r < 1" by auto
  have eq: "1 - r * r * (3 - 2 * r) = (1 - r) * (1 - r) * (1 + 2 * r)"
    by (simp add: algebra_simps)
  have "0 \<le> (1 - r) * (1 - r) * (1 + 2 * r)"
    using r by (intro mult_nonneg_nonneg) auto
  with eq have up: "r * r * (3 - 2 * r) \<le> 1" by linarith
  have lo: "0 \<le> r * r * (3 - 2 * r)"
    using r by (intro mult_nonneg_nonneg) auto
  from r lo up show ?thesis by (simp add: smoothstep_def)
qed

text \<open>
  With a positive duration the parameter is 0 at the start time and 1 from the start time
  plus the duration on.
\<close>

lemma spec_tween_t_ends:
  assumes "0 < camMoveDuration s"
  shows "spec_tween_t (camMoveStart s) s = 0"
    and "camMoveStart s + camMoveDuration s \<le> now \<Longrightarrow> spec_tween_t now s = 1"
  using assms by (simp_all add: spec_tween_t_def clamp_unit_cases)

text \<open>\<open>moveCameraTo\<close> captures the current pose as the start and the request as the end.\<close>

lemma moveCameraTo_captures:
  assumes "pose s = Some (p0, q0)"
  shows "moveCameraTo p l d now0 s =
           s\<lparr> camMoveDuration := d, camMoveStart := now0, camMoveActive := True,
              camStartPos := p0, camStartTarget := q0, camTargetPos := p, camTargetTarget := l \<rparr>"
  using pose_SomeD [OF assms] by (auto simp: moveCameraTo_def)

lemma example_tween_fields:
  "camMoveActive example_tween" "viewer example_tween = Some example_viewer"
  "camMoveDuration example_tween = 1500" "camMoveStart example_tween = 1000"
  "camTargetPos example_tween = Vector3 0 0 5" "camTargetTarget example_tween = Vector3 1 0 0"
  "camStartPos example_tween = Vector3 0 (- 5) 10" "camStartTarget example_tween = Vector3 0 0 0"
  by (simp_all add: example_tween_def moveCameraTo_def example_loaded_def example_viewer_def
      example_camera_def example_controls_def)

text \<open>
  C1. For an active tween (with camera and controls present and a nonzero duration), one
  frame step writes into camera and controls the pose interpolated, for position and
  orbit target alike, with the smoothstep of \<open>t = clamp((now - start) / duration, 0, 1)\<close>,
  hands the viewer to the library's \<open>controls.update()\<close>, and keeps the tween active
  exactly while \<open>t < 1\<close>. At \<open>t = 1\<close> the pose written is exactly the requested end pose
  (and at \<open>t = 0\<close> it is the captured start pose).
\<close>

theorem tween_step:
  assumes "camMoveActive s" and "viewer s = Some v" and "camera v = Some c"
    and "controls v = Some k" and "camMoveDuration s \<noteq> 0"
  shows "animate_tween orbitUpdate now s =
           s\<lparr> viewer := Some (orbitUpdate (v\<lparr>
                  camera := Some (c\<lparr> position := fst (spec_tween_pose now s) \<rparr>),
                  controls := Some (k\<lparr> target := snd (spec_tween_pose now s) \<rparr>) \<rparr>)),
              camMoveActive := (spec_tween_t now s < 1) \<rparr>
         \<and> (spec_tween_t now s = 1 \<longrightarrow>
              spec_tween_pose now s = (camTargetPos s, camTargetTarget s))
         \<and> (spec_tween_t now s = 0 \<longrightarrow>
              spec_tween_pose now s = (camStartPos s, camStartTarget s))"
proof (intro conjI impI)
  show "animate_tween orbitUpdate now s =
           s\<lparr> viewer := Some (orbitUpdate (v\<lparr>
                  camera := Some (c\<lparr> position := fst (spec_tween_pose now s) \<rparr>),
                  controls := Some (k\<lparr> target := snd (spec_tween_pose now s) \<rparr>) \<rparr>)),
              camMoveActive := (spec_tween_t now s < 1) \<rparr>"
    using assms
    by (auto simp: animate_tween_def spec_tween_pose_def spec_tween_t_def Let_def
        smoothstep_min smoothstep_clamp clamp_unit_cases)
next
  assume "spec_tween_t now s = 1"
  then show "spec_tween_pose now s = (camTargetPos s, camTargetTarget s)"
    by (simp add: spec_tween_pose_def smoothstep_outside lerpVectors_endpoints)
next
  assume "spec_tween_t now s = 0"
  then show "spec_tween_pose now s = (camStartPos s, camStartTarget s)"
    by (simp add: spec_tween_pose_def smoothstep_outside lerpVectors_endpoints)
qed

theorem tween_step_witness:
  "camMoveActive example_tween \<and> viewer example_tween = Some example_viewer
   \<and> camera example_viewer = Some example_camera \<and> controls example_viewer = Some example_controls
   \<and> camMoveDuration example_tween \<noteq> 0
   \<and> spec_tween_t 2500 example_tween = 1
   \<and> pose (animate_tween id 2500 example_tween) = Some (Vector3 0 0 5, Vector3 1 0 0)
   \<and> \<not> camMoveActive (animate_tween id 2500 example_tween)"
proof -
  have h: "camMoveActive example_tween" "viewer example_tween = Some example_viewer"
    "camera example_viewer = Some example_camera" "controls example_viewer = Some example_controls"
    "camMoveDuration example_tween \<noteq> 0"
    by (simp_all add: example_tween_fields example_viewer_def)
  have t: "spec_tween_t 2500 example_tween = 1"
    by (simp add: spec_tween_t_def clamp_def example_tween_fields)
  from tween_step [OF h, of id 2500] t h
  show ?thesis
    by (simp add: pose_def example_tween_fields)
qed


section \<open>Properties of the pan lock\<close>

text \<open>
  C2. With pan lock enabled and a pose \<open>(p, q)\<close>: if the orbit target's \<open>y\<close> is greater
  than 0, one pass sets the target's \<open>y\<close> to exactly 0 and lowers the camera's \<open>y\<close> by
  exactly the target's original \<open>y\<close>, leaving all other coordinates and so the
  camera-to-target offset as they were; otherwise the pass changes nothing.
\<close>

theorem panLock_pass:
  assumes "isPanLockActive s" and "pose s = Some (p, q)"
  shows "(vec_y q > 0 \<longrightarrow>
            pose (animate_panLock s) =
              Some (Vector3 (vec_x p) (vec_y p - vec_y q) (vec_z p), Vector3 (vec_x q) 0 (vec_z q))
            \<and> vec_sub (Vector3 (vec_x p) (vec_y p - vec_y q) (vec_z p)) (Vector3 (vec_x q) 0 (vec_z q))
                = vec_sub p q)
         \<and> (\<not> vec_y q > 0 \<longrightarrow> animate_panLock s = s)"
  using pose_SomeD [OF assms(2)] assms(1)
  by (auto simp: animate_panLock_def pose_def set_y_def vec_sub_def)

theorem panLock_pass_witness:
  "isPanLockActive example_underground
   \<and> pose example_underground = Some (Vector3 0 (- 3) 10, Vector3 1 2 3)
   \<and> pose (animate_panLock example_underground) = Some (Vector3 0 (- 5) 10, Vector3 1 0 3)
   \<and> isPanLockActive example_loaded
   \<and> pose example_loaded = Some (Vector3 0 (- 5) 10, Vector3 0 0 0)
   \<and> animate_panLock example_loaded = example_loaded"
proof -
  have h: "isPanLockActive example_underground"
    "pose example_underground = Some (Vector3 0 (- 3) 10, Vector3 1 2 3)"
    by (simp_all add: example_underground_def example_loaded_def pose_def)
  have g: "isPanLockActive example_loaded"
    "pose example_loaded = Some (Vector3 0 (- 5) 10, Vector3 0 0 0)"
    by (simp_all add: example_loaded_def pose_def example_viewer_def example_camera_def
        example_controls_def)
  from panLock_pass [OF h] panLock_pass [OF g] h g show ?thesis
    by simp
qed


section \<open>Properties of the annotation targets\<close>

lemma list_all_store_update:
  assumes "list_all P h" and "\<forall>g. P g \<longrightarrow> P (f g)"
  shows "list_all P (store_update a f h)"
proof (cases "a < length h")
  case True
  then have "P (h ! a)" using assms(1) by (simp add: list_all_length)
  then have "P (f (h ! a))" using assms(2) by blast
  with assms(1) True show ?thesis
    by (auto simp: store_update_def list_all_length nth_list_update)
next
  case False
  with assms(1) show ?thesis by (simp add: store_update_def)
qed

lemma list_all_fold_store_update:
  assumes "\<forall>g. P g \<longrightarrow> P (f g)"
  shows "list_all P h \<Longrightarrow> list_all P (fold (\<lambda>a. store_update a f) as h)"
proof (induction as arbitrary: h)
  case Nil
  then show ?case by simp
next
  case (Cons a as)
  then show ?case by (simp add: list_all_store_update assms)
qed

lemma tier_ok_set_targets:
  "tier_ok (set_targets a b g) =
     ((a = 1 \<and> b = 0.01) \<or> (a = 1.5 \<and> b = 0.8) \<or> (a = 2 \<and> b = 1))"
  by (simp add: tier_ok_def set_targets_def)

lemma tier_ok_new_annotation: "tier_ok (new_annotation d)"
  by (simp add: tier_ok_def new_annotation_def)

lemma tier_ok_animate_annotation: "tier_ok g \<Longrightarrow> tier_ok (animate_annotation g)"
  by (simp add: tier_ok_def animate_annotation_def Let_def)

lemma tier_ok_snap: "tier_ok g \<Longrightarrow> tier_ok (g\<lparr> scale := a, fillOpacity := b \<rparr>)"
  by (simp add: tier_ok_def)

lemma heap_moveCameraTo [simp]: "heap (moveCameraTo p l d now s) = heap s"
  by (simp add: moveCameraTo_def split: option.splits)

lemma heap_disable_controls [simp]: "heap (disable_controls s) = heap s"
  by (simp add: disable_controls_def split: option.splits)

lemma heap_set_distances [simp]: "heap (set_distances lo hi s) = heap s"
  by (simp add: set_distances_def split: option.splits)

lemma tiers_reset_targets: "tiers_ok s \<Longrightarrow> tiers_ok (reset_targets s)"
  by (simp add: tiers_ok_def reset_targets_def list_all_fold_store_update tier_ok_set_targets)

lemma tiers_highlightAnnotation:
  "tiers_ok s \<Longrightarrow> tiers_ok (state_of (highlightAnnotation index showModal now s))"
  using tiers_reset_targets [of "s\<lparr> selectedAnnotationIndex := index \<rparr>"]
  by (auto simp: highlightAnnotation_def state_of_def Let_def tiers_ok_def
      list_all_store_update tier_ok_set_targets split: option.splits)

lemma tiers_toggleAnnotationsMenu:
  "tiers_ok s \<Longrightarrow> tiers_ok (state_of (toggleAnnotationsMenu show s))"
  using tiers_reset_targets [of s]
  by (auto simp: toggleAnnotationsMenu_def state_of_def Let_def tiers_ok_def
      populateAnnotationsMenu_def)

lemma tiers_addAnnotations:
  "tiers_ok s \<Longrightarrow> tiers_ok (state_of (addAnnotations stageIndex fetched s))"
  by (auto simp: addAnnotations_def state_of_def Let_def tiers_ok_def populateAnnotationsMenu_def
      list_all_iff tier_ok_new_annotation split: option.splits)

lemma tiers_onAnnotationHover: "tiers_ok s \<Longrightarrow> tiers_ok (onAnnotationHover ev s)"
  by (auto simp: onAnnotationHover_def pointer_outside_def Let_def tiers_ok_def list_all_store_update
      tier_ok_set_targets tier_ok_snap split: option.splits)

lemma tiers_annotationItem_mouseenter: "tiers_ok s \<Longrightarrow> tiers_ok (annotationItem_mouseenter index s)"
  by (auto simp: annotationItem_mouseenter_def tiers_ok_def list_all_store_update
      tier_ok_set_targets split: option.splits)

lemma tiers_annotationItem_mouseleave: "tiers_ok s \<Longrightarrow> tiers_ok (annotationItem_mouseleave index s)"
  by (auto simp: annotationItem_mouseleave_def tiers_ok_def list_all_store_update
      tier_ok_set_targets split: option.splits)

lemma tiers_annotationItem_click:
  "tiers_ok s \<Longrightarrow> tiers_ok (state_of (annotationItem_click index now s))"
  using tiers_highlightAnnotation [of s "int index" False now]
  by (auto simp: annotationItem_click_def state_of_def tiers_ok_def split: option.splits sum.splits)

lemma state_of_simps [simp]: "state_of (Inl (e, s)) = s" "state_of (Inr s) = s"
  by (simp_all add: state_of_def)

lemma tiers_highlightAnnotation_cases:
  "highlightAnnotation i m now s = Inl (e, s') \<Longrightarrow> tiers_ok s \<Longrightarrow> tiers_ok s'"
  "highlightAnnotation i m now s = Inr s' \<Longrightarrow> tiers_ok s \<Longrightarrow> tiers_ok s'"
  using tiers_highlightAnnotation [of s i m now] by simp_all

lemma tiers_toggleAnnotationsMenu_cases:
  "toggleAnnotationsMenu b s = Inl (e, s') \<Longrightarrow> tiers_ok s \<Longrightarrow> tiers_ok s'"
  "toggleAnnotationsMenu b s = Inr s' \<Longrightarrow> tiers_ok s \<Longrightarrow> tiers_ok s'"
  using tiers_toggleAnnotationsMenu [of s b] by simp_all

lemma tiers_disable_controls: "tiers_ok s \<Longrightarrow> tiers_ok (disable_controls s)"
  by (simp add: tiers_ok_def)

lemma tiers_onAnnotationPointerDown:
  "tiers_ok s \<Longrightarrow> tiers_ok (state_of (fst (onAnnotationPointerDown ev now s)))"
  by (auto simp: onAnnotationPointerDown_def Let_def
      split: option.splits sum.splits prod.splits
      dest: tiers_highlightAnnotation_cases tiers_toggleAnnotationsMenu_cases
      intro: tiers_disable_controls)

lemma tiers_onDotPointerDown: "tiers_ok s \<Longrightarrow> tiers_ok (onDotPointerDown ev s)"
  by (simp add: onDotPointerDown_def tiers_ok_def)

lemma tiers_pointerdown: "tiers_ok s \<Longrightarrow> tiers_ok (pointerdown ev now s)"
  using tiers_onAnnotationPointerDown [of s ev now]
  by (auto simp: pointerdown_def tiers_onDotPointerDown split: prod.splits)

lemma tiers_pointerup: "tiers_ok s \<Longrightarrow> tiers_ok (pointerup s)"
  by (simp add: pointerup_def tiers_ok_def split: option.splits)

lemma tiers_loadStage_begin: "tiers_ok s \<Longrightarrow> tiers_ok (loadStage_begin index s)"
  by (simp add: loadStage_begin_def tiers_ok_def Let_def split: option.splits)

lemma tiers_apply_stage_settings:
  "tiers_ok s \<Longrightarrow> tiers_ok (state_of (apply_stage_settings stage s))"
  by (simp add: apply_stage_settings_def tiers_ok_def Let_def split: option.splits)

lemma tiers_load_cases:
  "apply_stage_settings stage s = Inl (e, s') \<Longrightarrow> tiers_ok s \<Longrightarrow> tiers_ok s'"
  "apply_stage_settings stage s = Inr s' \<Longrightarrow> tiers_ok s \<Longrightarrow> tiers_ok s'"
  "addAnnotations index fetched s = Inl (e, s') \<Longrightarrow> tiers_ok s \<Longrightarrow> tiers_ok s'"
  "addAnnotations index fetched s = Inr s' \<Longrightarrow> tiers_ok s \<Longrightarrow> tiers_ok s'"
  using tiers_apply_stage_settings [of s stage] tiers_addAnnotations [of s index fetched]
  by simp_all

lemma tiers_isLoading: "tiers_ok (s\<lparr> isLoading := b \<rparr>) = tiers_ok s"
  by (simp add: tiers_ok_def)

lemma tiers_createMovableDot: "tiers_ok (createMovableDot s) = tiers_ok s"
  by (simp add: tiers_ok_def createMovableDot_def)

lemma tiers_loadStage_resume: "tiers_ok s \<Longrightarrow> tiers_ok (loadStage_resume index outcome s)"
  by (auto simp: loadStage_resume_def tiers_isLoading tiers_createMovableDot
      split: load_outcome.splits option.splits sum.splits prod.splits
      dest: tiers_load_cases)

lemma tiers_zoom:
  "tiers_ok s \<Longrightarrow> tiers_ok (setZoomLock lo hi s)" "tiers_ok s \<Longrightarrow> tiers_ok (clearZoomLock s)"
  by (simp_all add: setZoomLock_def clearZoomLock_def tiers_ok_def)

lemma tiers_devButton_click: "tiers_ok s \<Longrightarrow> tiers_ok (devButton_click s)"
  by (simp add: devButton_click_def tiers_ok_def Let_def split: option.splits)

lemma tiers_animate: "tiers_ok s \<Longrightarrow> tiers_ok (animate orbitUpdate now s)"
proof -
  assume a: "tiers_ok s"
  have 1: "tiers_ok (animate_tween orbitUpdate now s)"
    using a by (simp add: animate_tween_def tiers_ok_def Let_def split: option.splits)
  have 2: "\<And>s. tiers_ok s \<Longrightarrow> tiers_ok (animate_panLock s)"
    by (simp add: animate_panLock_def tiers_ok_def Let_def split: option.splits)
  have 3: "\<And>s. tiers_ok s \<Longrightarrow> tiers_ok (animate_annotations s)"
    by (simp add: animate_annotations_def tiers_ok_def list_all_fold_store_update
        tier_ok_animate_annotation split: option.splits)
  show ?thesis unfolding animate_def by (intro 3 2 1)
qed

lemma tiers_step: "tiers_ok s \<Longrightarrow> tiers_ok (step orbitUpdate e s)"
  by (cases e)
    (simp_all add: tiers_loadStage_begin tiers_loadStage_resume tiers_onAnnotationHover
      tiers_pointerdown tiers_pointerup tiers_annotationItem_mouseenter
      tiers_annotationItem_mouseleave tiers_annotationItem_click tiers_toggleAnnotationsMenu
      tiers_zoom tiers_devButton_click tiers_animate,
     simp_all add: tiers_ok_def initializeAnnotationsMenu_def)

lemma tiers_run: "tiers_ok s \<Longrightarrow> tiers_ok (run orbitUpdate events s)"
  unfolding run_def by (induction events arbitrary: s) (simp_all add: tiers_step)

text \<open>
  C3. Whatever events occur (stage loads, which create annotations, hover entry and exit,
  selection, menu hover, menu close, frames, and the rest), every annotation group ever
  created has its pair of targets in one of exactly three tiers: \<open>(1.0, 0.01)\<close> idle,
  \<open>(1.5, 0.8)\<close> hovered or \<open>(2.0, 1.0)\<close> selected.
\<close>

theorem targets_in_tiers: "list_all tier_ok (heap (run orbitUpdate events initial_state))"
proof -
  have "tiers_ok initial_state" by (simp add: tiers_ok_def initial_state_def)
  then have "tiers_ok (run orbitUpdate events initial_state)" by (rule tiers_run)
  then show ?thesis by (simp add: tiers_ok_def)
qed

theorem targets_in_tiers_witness:
  "list_all tier_ok (heap example_loaded) \<and> length (heap example_loaded) = 2"
  using targets_in_tiers [of id example_events]
  by (simp add: example_loaded_reachable) (simp add: example_loaded_def example_annotations_def)


section \<open>Properties of selection\<close>

lemma length_store_update [simp]: "length (store_update a f h) = length h"
  by (simp add: store_update_def)

lemma nth_store_update:
  "b < length h \<Longrightarrow> store_update a f h ! b = (if b = a then f (h ! b) else h ! b)"
  by (simp add: store_update_def)

lemma length_fold_store_update [simp]:
  "length (fold (\<lambda>a. store_update a f) as h) = length h"
  by (induction as arbitrary: h) simp_all

lemma nth_fold_store_update:
  "distinct as \<Longrightarrow> b < length h \<Longrightarrow>
     fold (\<lambda>a. store_update a f) as h ! b = (if b \<in> set as then f (h ! b) else h ! b)"
proof (induction as arbitrary: h)
  case Nil
  then show ?case by simp
next
  case (Cons a as)
  then show ?case by (auto simp: nth_store_update)
qed

lemma nth_opt_Some_iff:
  "(nth_opt xs i = Some x) = (0 \<le> i \<and> nat i < length xs \<and> xs ! nat i = x)"
  by (auto simp: nth_opt_def)

lemma nth_opt_None_iff: "(nth_opt xs i = None) = (i < 0 \<or> length xs \<le> nat i)"
  by (auto simp: nth_opt_def)

lemma reset_targets_fields [simp]:
  "currentAnnotations (reset_targets s) = currentAnnotations s"
  "length (heap (reset_targets s)) = length (heap s)"
  "selectedAnnotationIndex (reset_targets s) = selectedAnnotationIndex s"
  "annotationsList (reset_targets s) = annotationsList s"
  "currentAnnotationsData (reset_targets s) = currentAnnotationsData s"
  "tween_of (reset_targets s) = tween_of s"
  by (simp_all add: reset_targets_def tween_of_def)

lemma refs_ok_reset_targets [simp]: "refs_ok (reset_targets s) = refs_ok s"
  by (simp add: refs_ok_def)

lemma targets_at_reset_targets:
  assumes "refs_ok s" and "0 \<le> i" and "nat i < length (currentAnnotations s)"
  shows "targets_at (reset_targets s) i = Some (1, 0.01)"
proof -
  let ?a = "currentAnnotations s ! nat i"
  have a: "?a < length (heap s)" "?a \<in> set (currentAnnotations s)" "distinct (currentAnnotations s)"
    using assms by (auto simp: refs_ok_def list_all_length)
  then have "heap (reset_targets s) ! ?a = set_targets 1 0.01 (heap s ! ?a)"
    by (simp add: reset_targets_def nth_fold_store_update)
  with a assms show ?thesis
    by (simp add: targets_at_def nth_opt_def set_targets_def)
qed

text \<open>What \<open>highlightAnnotation\<close> does to the annotations, for an index of the stage.\<close>

lemma moveCameraTo_fields [simp]:
  "heap (moveCameraTo p l d now s) = heap s"
  "currentAnnotations (moveCameraTo p l d now s) = currentAnnotations s"
  "selectedAnnotationIndex (moveCameraTo p l d now s) = selectedAnnotationIndex s"
  "annotationsList (moveCameraTo p l d now s) = annotationsList s"
  "currentAnnotationsData (moveCameraTo p l d now s) = currentAnnotationsData s"
  by (simp_all add: moveCameraTo_def split: option.splits)

lemma highlightAnnotation_in_range:
  assumes "refs_ok s" and "annotationsList s" and "0 \<le> A" and "nat A < length (currentAnnotations s)"
  shows "\<exists>s1. highlightAnnotation A False now s = Inr s1
           \<and> selectedAnnotationIndex s1 = A
           \<and> currentAnnotations s1 = currentAnnotations s
           \<and> refs_ok s1 \<and> annotationsList s1
           \<and> (\<forall>i. 0 \<le> i \<and> nat i < length (currentAnnotations s) \<longrightarrow>
                  targets_at s1 i = Some (if i = A then (2, 1) else (1, 0.01)))"
proof -
  define r where "r = reset_targets (s\<lparr> selectedAnnotationIndex := A \<rparr>)"
  define a where "a = currentAnnotations s ! nat A"
  define s2 where "s2 = r\<lparr> heap := store_update a (set_targets 2 1) (heap r) \<rparr>"
  have r_ok: "refs_ok r" "currentAnnotations r = currentAnnotations s" "annotationsList r"
    "selectedAnnotationIndex r = A" "length (heap r) = length (heap s)"
    using assms by (simp_all add: r_def refs_ok_def)
  have nth: "nth_opt (currentAnnotations r) A = Some a"
    using assms by (simp add: r_ok nth_opt_def a_def)
  have r_t: "\<And>i. 0 \<le> i \<Longrightarrow> nat i < length (currentAnnotations s) \<Longrightarrow>
      targets_at r i = Some (1, 0.01)"
    unfolding r_def using assms(1) by (intro targets_at_reset_targets) (simp_all add: refs_ok_def)
  have s2_t: "targets_at s2 i = Some (if i = A then (2, 1) else (1, 0.01))"
    if "0 \<le> i" "nat i < length (currentAnnotations s)" for i
  proof -
    let ?b = "currentAnnotations s ! nat i"
    have b: "?b < length (heap r)" using that assms(1) by (simp add: refs_ok_def list_all_length r_ok)
    have ne: "(?b = a) = (i = A)"
      using that assms by (auto simp: a_def refs_ok_def nth_eq_iff_index_eq)
    from r_t [OF that] b ne that show ?thesis
      by (auto simp: targets_at_def s2_def nth_opt_def r_ok nth_store_update set_targets_def)
  qed
  obtain s3 where s3: "highlightAnnotation A False now s = Inr s3"
     "heap s3 = heap s2" "currentAnnotations s3 = currentAnnotations s2"
     "selectedAnnotationIndex s3 = selectedAnnotationIndex s2" "annotationsList s3 = annotationsList s2"
    using nth r_ok
    by (auto simp: highlightAnnotation_def Let_def r_def[symmetric] s2_def split: option.splits)
  have "targets_at s3 i = targets_at s2 i" for i
    by (simp only: targets_at_def s3)
  with s2_t s3 r_ok show ?thesis
    by (auto simp: s2_def refs_ok_def)
qed

text \<open>The references stay well-formed in every reachable state.\<close>

lemma refs_frame:
  "currentAnnotations s' = currentAnnotations s \<Longrightarrow> length (heap s') = length (heap s) \<Longrightarrow>
     refs_ok s' = refs_ok s"
  by (simp add: refs_ok_def)

lemma frame_highlightAnnotation:
  "currentAnnotations (state_of (highlightAnnotation i m now s)) = currentAnnotations s
   \<and> length (heap (state_of (highlightAnnotation i m now s))) = length (heap s)"
  by (auto simp: highlightAnnotation_def Let_def split: option.splits)

lemma frame_toggleAnnotationsMenu:
  "currentAnnotations (state_of (toggleAnnotationsMenu b s)) = currentAnnotations s
   \<and> length (heap (state_of (toggleAnnotationsMenu b s))) = length (heap s)"
  by (auto simp: toggleAnnotationsMenu_def Let_def populateAnnotationsMenu_def)

lemma frame_disable_controls [simp]:
  "currentAnnotations (disable_controls s) = currentAnnotations s"
  "heap (disable_controls s) = heap s"
  by (simp_all add: disable_controls_def split: option.splits)

lemma refs_selection_cases:
  "highlightAnnotation i m now s = Inl (e, s') \<Longrightarrow> refs_ok s \<Longrightarrow> refs_ok s'"
  "highlightAnnotation i m now s = Inr s' \<Longrightarrow> refs_ok s \<Longrightarrow> refs_ok s'"
  "toggleAnnotationsMenu b s = Inl (e, s') \<Longrightarrow> refs_ok s \<Longrightarrow> refs_ok s'"
  "toggleAnnotationsMenu b s = Inr s' \<Longrightarrow> refs_ok s \<Longrightarrow> refs_ok s'"
  using frame_highlightAnnotation [of i m now s] frame_toggleAnnotationsMenu [of b s]
  by (simp_all add: refs_ok_def)

lemma refs_disable_controls: "refs_ok s \<Longrightarrow> refs_ok (disable_controls s)"
  by (simp add: refs_ok_def)

lemma refs_onAnnotationPointerDown:
  "refs_ok s \<Longrightarrow> refs_ok (state_of (fst (onAnnotationPointerDown ev now s)))"
  by (auto simp: onAnnotationPointerDown_def Let_def
      split: option.splits sum.splits prod.splits
      dest: refs_selection_cases intro: refs_disable_controls)

lemma refs_pointerdown: "refs_ok s \<Longrightarrow> refs_ok (pointerdown ev now s)"
proof -
  have d: "\<And>s. refs_ok s \<Longrightarrow> refs_ok (onDotPointerDown ev s)"
    by (simp add: onDotPointerDown_def refs_ok_def)
  assume "refs_ok s"
  from refs_onAnnotationPointerDown [OF this, of ev now] show ?thesis
    by (auto simp: pointerdown_def d split: prod.splits)
qed

lemma refs_onAnnotationHover: "refs_ok (onAnnotationHover ev s) = refs_ok s"
  by (intro refs_frame) (auto simp: onAnnotationHover_def Let_def split: option.splits)

lemma refs_annotationItem:
  "refs_ok (annotationItem_mouseenter i s) = refs_ok s"
  "refs_ok (annotationItem_mouseleave i s) = refs_ok s"
  by (intro refs_frame; auto simp: annotationItem_mouseenter_def annotationItem_mouseleave_def
      split: option.splits)+

lemma refs_annotationItem_click: "refs_ok (state_of (annotationItem_click i now s)) = refs_ok s"
  using frame_highlightAnnotation [of "int i" False now s]
  by (intro refs_frame) (auto simp: annotationItem_click_def split: option.splits sum.splits)

lemma refs_addAnnotations:
  "refs_ok (state_of (addAnnotations index fetched s))"
  by (auto simp: addAnnotations_def Let_def refs_ok_def populateAnnotationsMenu_def list_all_iff
      split: option.splits)

lemma refs_loadStage_begin: "refs_ok (loadStage_begin index s) = refs_ok s"
  by (intro refs_frame) (auto simp: loadStage_begin_def Let_def split: option.splits)

lemma refs_apply_stage_settings:
  "refs_ok (state_of (apply_stage_settings stage s)) = refs_ok s"
  by (intro refs_frame) (auto simp: apply_stage_settings_def Let_def split: option.splits)

lemma refs_loadStage_resume: "refs_ok s \<Longrightarrow> refs_ok (loadStage_resume index outcome s)"
proof -
  assume a: "refs_ok s"
  have 1: "\<And>stage e s1. apply_stage_settings stage s = Inl (e, s1) \<Longrightarrow> refs_ok s1"
    using a refs_apply_stage_settings by (metis state_of_simps(1))
  have 2: "\<And>f e s1 s2. addAnnotations index f s1 = Inl (e, s2) \<Longrightarrow> refs_ok s2"
    using refs_addAnnotations by (metis state_of_simps(1))
  have 3: "\<And>f s1 s2. addAnnotations index f s1 = Inr s2 \<Longrightarrow> refs_ok s2"
    using refs_addAnnotations by (metis state_of_simps(2))
  have 4: "\<And>s b. refs_ok (s\<lparr> isLoading := b \<rparr>) = refs_ok s"
    "\<And>s. refs_ok (createMovableDot s) = refs_ok s"
    by (simp_all add: refs_ok_def createMovableDot_def)
  show ?thesis using a
    by (auto simp: loadStage_resume_def 4
        split: load_outcome.splits option.splits sum.splits prod.splits dest: 1 2 3)
qed

lemma refs_animate: "refs_ok (animate orbitUpdate now s) = refs_ok s"
proof -
  have 1: "refs_ok (animate_tween orbitUpdate now s) = refs_ok s"
    by (intro refs_frame) (simp_all add: animate_tween_def Let_def split: option.splits)
  have 2: "\<And>s. refs_ok (animate_panLock s) = refs_ok s"
    by (intro refs_frame) (simp_all add: animate_panLock_def Let_def split: option.splits)
  have 3: "\<And>s. refs_ok (animate_annotations s) = refs_ok s"
    by (intro refs_frame) (simp_all add: animate_annotations_def split: option.splits)
  show ?thesis by (simp add: animate_def 1 2 3)
qed

lemma refs_small_steps:
  "refs_ok (pointerup s) = refs_ok s"
  "refs_ok (setZoomLock lo hi s) = refs_ok s"
  "refs_ok (clearZoomLock s) = refs_ok s"
  "refs_ok (devButton_click s) = refs_ok s"
  "refs_ok (initializeAnnotationsMenu s) = refs_ok s"
  "refs_ok (s\<lparr> constructionStages := stages \<rparr>) = refs_ok s"
proof -
  show "refs_ok (pointerup s) = refs_ok s"
    by (intro refs_frame) (simp_all add: pointerup_def split: option.splits)
  show "refs_ok (setZoomLock lo hi s) = refs_ok s"
    by (intro refs_frame) (simp_all add: setZoomLock_def set_distances_def split: option.splits)
  show "refs_ok (clearZoomLock s) = refs_ok s"
    by (intro refs_frame) (simp_all add: clearZoomLock_def set_distances_def split: option.splits)
  show "refs_ok (devButton_click s) = refs_ok s"
    by (intro refs_frame) (simp_all add: devButton_click_def Let_def split: option.splits)
  show "refs_ok (initializeAnnotationsMenu s) = refs_ok s"
    by (simp add: refs_ok_def initializeAnnotationsMenu_def)
  show "refs_ok (s\<lparr> constructionStages := stages \<rparr>) = refs_ok s"
    by (simp add: refs_ok_def)
qed

lemma refs_toggle: "refs_ok s \<Longrightarrow> refs_ok (state_of (toggleAnnotationsMenu b s))"
  using frame_toggleAnnotationsMenu [of b s] by (simp add: refs_ok_def)

lemma refs_step: "refs_ok s \<Longrightarrow> refs_ok (step orbitUpdate e s)"
  by (cases e)
    (simp_all add: refs_loadStage_begin refs_loadStage_resume refs_onAnnotationHover
      refs_pointerdown refs_annotationItem refs_annotationItem_click refs_animate
      refs_small_steps refs_toggle)

lemma refs_run: "refs_ok s \<Longrightarrow> refs_ok (run orbitUpdate events s)"
  unfolding run_def by (induction events arbitrary: s) (simp_all add: refs_step)

lemma refs_ok_reachable: "refs_ok (run orbitUpdate events initial_state)"
  by (rule refs_run) (simp add: refs_ok_def initial_state_def)

text \<open>
  At most one annotation of the current stage is at the selected tier, in every reachable
  state: only \<open>highlightAnnotation\<close> writes the selected tier, after it has reset all
  annotations of the stage.
\<close>

lemma no_new_selected_refl: "no_new_selected h h"
  by (simp add: no_new_selected_def list_all2_same)

lemma no_new_selected_trans:
  assumes "no_new_selected h1 h2" and "no_new_selected h2 h3"
  shows "no_new_selected h1 h3"
  using assms unfolding no_new_selected_def
  by (rule list_all2_trans [rotated]) blast

lemma no_new_selected_nth:
  "no_new_selected h h' \<Longrightarrow> a < length h' \<Longrightarrow> is_selected (h' ! a) \<Longrightarrow>
     a < length h \<and> is_selected (h ! a)"
  by (simp add: no_new_selected_def list_all2_conv_all_nth)

lemma no_new_selected_store_update:
  assumes "\<forall>g. is_selected (f g) \<longrightarrow> is_selected g"
  shows "no_new_selected h (store_update a f h)"
  unfolding no_new_selected_def list_all2_conv_all_nth
  using assms by (simp add: store_update_def nth_list_update)

lemma no_new_selected_fold:
  assumes "\<forall>g. is_selected (f g) \<longrightarrow> is_selected g"
  shows "no_new_selected h (fold (\<lambda>a. store_update a f) as h)"
proof (induction as arbitrary: h)
  case Nil
  show ?case by (simp add: no_new_selected_refl)
next
  case (Cons a as)
  from no_new_selected_store_update [OF assms, of h a] Cons [of "store_update a f h"]
  show ?case by (auto intro: no_new_selected_trans)
qed

lemma keeps_unselected:
  "\<forall>g. is_selected (set_targets 1 0.01 g) \<longrightarrow> is_selected g"
  "\<forall>g. is_selected (set_targets 1.5 0.8 g) \<longrightarrow> is_selected g"
  "\<forall>g. is_selected (animate_annotation g) \<longrightarrow> is_selected g"
  "\<forall>g. is_selected (g\<lparr> scale := a, fillOpacity := b \<rparr>) \<longrightarrow> is_selected g"
  by (simp_all add: is_selected_def set_targets_def animate_annotation_def Let_def)

lemma targets_at_selected:
  "(targets_at s i = Some (2, 1)) =
     (\<exists>a. nth_opt (currentAnnotations s) i = Some a \<and> a < length (heap s)
          \<and> is_selected (heap s ! a))"
  by (auto simp: targets_at_def nth_opt_def is_selected_def split: option.splits)

lemma length_filter_mono:
  "(\<And>x. x \<in> set xs \<Longrightarrow> P x \<Longrightarrow> Q x) \<Longrightarrow> length (filter P xs) \<le> length (filter Q xs)"
  by (induction xs) auto

lemma selected_indices_shrink:
  assumes "currentAnnotations s' = currentAnnotations s" and "no_new_selected (heap s) (heap s')"
  shows "length (selected_indices s') \<le> length (selected_indices s)"
  unfolding selected_indices_def assms(1)
proof (rule length_filter_mono)
  fix i
  assume "targets_at s' (int i) = Some (2, 1)"
  then obtain a where a: "nth_opt (currentAnnotations s) (int i) = Some a"
    "a < length (heap s')" "is_selected (heap s' ! a)"
    by (auto simp: targets_at_selected assms(1))
  with no_new_selected_nth [OF assms(2)] have "a < length (heap s)" "is_selected (heap s ! a)"
    by blast+
  with a show "targets_at s (int i) = Some (2, 1)"
    by (auto simp: targets_at_selected)
qed

lemma quiet_one_selected: "quiet s s' \<Longrightarrow> one_selected s \<Longrightarrow> one_selected s'"
  using selected_indices_shrink [of s' s] by (simp add: quiet_def one_selected_def)

lemma quiet_same:
  "heap s' = heap s \<Longrightarrow> currentAnnotations s' = currentAnnotations s \<Longrightarrow> quiet s s'"
  by (simp add: quiet_def no_new_selected_refl)

lemma quiet_trans: "quiet s1 s2 \<Longrightarrow> quiet s2 s3 \<Longrightarrow> quiet s1 s3"
  by (auto simp: quiet_def intro: no_new_selected_trans)

lemma quiet_store_update:
  assumes "\<forall>g. is_selected (f g) \<longrightarrow> is_selected g"
    and "heap s' = store_update a f (heap s)" and "currentAnnotations s' = currentAnnotations s"
  shows "quiet s s'"
  using assms by (simp add: quiet_def no_new_selected_store_update)

lemma no_new_selected_fold_targets:
  "a \<noteq> 2 \<or> b \<noteq> 1 \<Longrightarrow>
     no_new_selected h (fold (\<lambda>x. store_update x (set_targets a b)) as h)"
  by (rule no_new_selected_fold) (auto simp: is_selected_def set_targets_def)

lemma quiet_reset_targets: "quiet s (reset_targets s)"
  by (simp add: quiet_def reset_targets_def no_new_selected_fold_targets)

lemma no_new_selected_step:
  "no_new_selected h h1 \<Longrightarrow> \<forall>g. is_selected (f g) \<longrightarrow> is_selected g \<Longrightarrow>
     no_new_selected h (store_update a f h1)"
  using no_new_selected_store_update [of f h1 a] by (blast intro: no_new_selected_trans)

lemmas quiet_simps = quiet_def no_new_selected_step no_new_selected_refl is_selected_def
  set_targets_def

lemma quiet_onAnnotationHover: "quiet s (onAnnotationHover ev s)"
  by (simp add: onAnnotationHover_def Let_def quiet_simps split: option.splits)

lemma quiet_annotationItem:
  "quiet s (annotationItem_mouseenter i s)" "quiet s (annotationItem_mouseleave i s)"
  by (simp_all add: annotationItem_mouseenter_def annotationItem_mouseleave_def quiet_simps
      split: option.splits)

lemma quiet_animate: "quiet s (animate orbitUpdate now s)"
proof -
  have 1: "quiet s (animate_tween orbitUpdate now s)"
    by (rule quiet_same) (simp_all add: animate_tween_def Let_def split: option.splits)
  have 2: "\<And>s. quiet s (animate_panLock s)"
    by (rule quiet_same) (simp_all add: animate_panLock_def Let_def split: option.splits)
  have 3: "\<And>s. quiet s (animate_annotations s)"
    by (simp add: quiet_def animate_annotations_def no_new_selected_fold [OF keeps_unselected(3)]
        no_new_selected_refl split: option.splits)
  show ?thesis unfolding animate_def
    by (rule quiet_trans [OF quiet_trans [OF 1 2] 3])
qed

lemma quiet_small_steps:
  "quiet s (pointerup s)"
  "quiet s (setZoomLock lo hi s)"
  "quiet s (clearZoomLock s)"
  "quiet s (devButton_click s)"
  "quiet s (initializeAnnotationsMenu s)"
  "quiet s (s\<lparr> constructionStages := stages \<rparr>)"
  "quiet s (loadStage_begin index s)"
  "quiet s (disable_controls s)"
  "quiet s (onDotPointerDown ev s)"
  "quiet s (moveCameraTo p l d now s)"
  "quiet s (createMovableDot s)"
  "quiet s (s\<lparr> isLoading := b \<rparr>)"
  by (rule quiet_same;
      simp add: pointerup_def setZoomLock_def clearZoomLock_def set_distances_def
        devButton_click_def initializeAnnotationsMenu_def loadStage_begin_def
        onDotPointerDown_def createMovableDot_def Let_def split: option.splits)+

lemma quiet_toggleAnnotationsMenu: "quiet s (state_of (toggleAnnotationsMenu b s))"
  using quiet_reset_targets [of s]
  by (simp add: toggleAnnotationsMenu_def Let_def populateAnnotationsMenu_def quiet_def
      no_new_selected_refl)

lemma length_filter_upt_eq: "length (filter (\<lambda>j. j = k) [0 ..< n]) = (if k < n then 1 else 0)"
  by (induction n) auto

lemma one_selected_highlightAnnotation:
  assumes "refs_ok s" and "one_selected s"
  shows "one_selected (state_of (highlightAnnotation i False now s))"
proof (cases "annotationsList s \<and> 0 \<le> i \<and> nat i < length (currentAnnotations s)")
  case True
  from highlightAnnotation_in_range [of s i now] assms(1) True
  obtain s1 where s1: "highlightAnnotation i False now s = Inr s1"
    "currentAnnotations s1 = currentAnnotations s"
    "\<forall>j. 0 \<le> j \<and> nat j < length (currentAnnotations s) \<longrightarrow>
        targets_at s1 j = Some (if j = i then (2, 1) else (1, 0.01))"
    by blast
  have "selected_indices s1 = filter (\<lambda>j. int j = i) [0 ..< length (currentAnnotations s)]"
    unfolding selected_indices_def s1(2)
    by (rule filter_cong [OF refl]) (use s1(3) in auto)
  also have "length \<dots> \<le> 1"
  proof -
    have "filter (\<lambda>j. int j = i) [0 ..< length (currentAnnotations s)]
            = filter (\<lambda>j. j = nat i) [0 ..< length (currentAnnotations s)]"
      using True by (intro filter_cong) auto
    also have "length \<dots> \<le> 1"
      by (simp add: length_filter_upt_eq)
    finally show ?thesis .
  qed
  finally show ?thesis by (simp add: one_selected_def s1(1))
next
  case False
  define r where "r = reset_targets (s\<lparr> selectedAnnotationIndex := i \<rparr>)"
  have q: "quiet s r"
    using quiet_reset_targets [of "s\<lparr> selectedAnnotationIndex := i \<rparr>"]
    by (simp add: r_def quiet_def)
  have "state_of (highlightAnnotation i False now s) = r"
    using False
    by (auto simp: highlightAnnotation_def Let_def r_def [symmetric] nth_opt_def
        split: option.splits) (simp_all add: r_def)
  with quiet_one_selected [OF q assms(2)] show ?thesis by simp
qed

lemma one_selected_empty: "currentAnnotations s = [] \<Longrightarrow> one_selected s"
  by (simp add: one_selected_def selected_indices_def)

lemma one_selected_addAnnotations:
  "one_selected (state_of (addAnnotations index fetched s))"
proof -
  have fresh: "one_selected (s1\<lparr> heap := heap s1 @ map new_annotation ds,
      currentAnnotations := [length (heap s1) ..< length (heap s1) + length ds],
      currentAnnotationsData := x \<rparr>)" for s1 :: state and ds x
  proof -
    have "targets_at (s1\<lparr> heap := heap s1 @ map new_annotation ds,
      currentAnnotations := [length (heap s1) ..< length (heap s1) + length ds],
      currentAnnotationsData := x \<rparr>) (int i) \<noteq> Some (2, 1)" for i
    proof
      let ?s = "s1\<lparr> heap := heap s1 @ map new_annotation ds,
        currentAnnotations := [length (heap s1) ..< length (heap s1) + length ds],
        currentAnnotationsData := x \<rparr>"
      assume "targets_at ?s (int i) = Some (2, 1)"
      then obtain a where a: "nth_opt (currentAnnotations ?s) (int i) = Some a"
        "is_selected (heap ?s ! a)"
        by (auto simp: targets_at_selected)
      from a(1) have "i < length ds" "a = length (heap s1) + i"
        by (auto simp: nth_opt_def split: if_splits)
      with a(2) show False
        by (simp add: nth_append is_selected_def new_annotation_def)
    qed
    then show ?thesis
      by (simp add: one_selected_def selected_indices_def)
  qed
  show ?thesis
    by (auto simp: addAnnotations_def Let_def populateAnnotationsMenu_def one_selected_empty fresh
        split: option.splits)
qed

lemma one_selected_cases:
  "highlightAnnotation i False now s = Inl (e, s') \<Longrightarrow> refs_ok s \<Longrightarrow> one_selected s \<Longrightarrow>
     one_selected s'"
  "highlightAnnotation i False now s = Inr s' \<Longrightarrow> refs_ok s \<Longrightarrow> one_selected s \<Longrightarrow>
     one_selected s'"
  "toggleAnnotationsMenu b s = Inl (e, s') \<Longrightarrow> one_selected s \<Longrightarrow> one_selected s'"
  "toggleAnnotationsMenu b s = Inr s' \<Longrightarrow> one_selected s \<Longrightarrow> one_selected s'"
  "addAnnotations index fetched s = Inl (e, s') \<Longrightarrow> one_selected s'"
  "addAnnotations index fetched s = Inr s' \<Longrightarrow> one_selected s'"
  using one_selected_highlightAnnotation [of s i now]
        quiet_one_selected [OF quiet_toggleAnnotationsMenu, of s b]
        one_selected_addAnnotations [of index fetched s]
  by simp_all

lemma one_selected_same:
  "heap s' = heap s \<Longrightarrow> currentAnnotations s' = currentAnnotations s \<Longrightarrow>
     one_selected s' = one_selected s"
  by (simp only: one_selected_def selected_indices_def targets_at_def)

lemma one_selected_quiet_steps:
  "one_selected (disable_controls s) = one_selected s"
  "one_selected (moveCameraTo p l d now s) = one_selected s"
  "one_selected (createMovableDot s) = one_selected s"
  "one_selected (s\<lparr> isLoading := b \<rparr>) = one_selected s"
  "one_selected (onDotPointerDown ev s) = one_selected s"
  by (rule one_selected_same; simp add: createMovableDot_def onDotPointerDown_def)+

lemma one_selected_onAnnotationPointerDown:
  assumes "refs_ok s" and "one_selected s"
  shows "one_selected (state_of (fst (onAnnotationPointerDown ev now s)))"
proof -
  let ?s1 = "disable_controls s"
  have A: "one_selected ?s1" using assms by (simp add: one_selected_quiet_steps)
  have T: "\<And>e s2. toggleAnnotationsMenu True ?s1 = Inl (e, s2) \<Longrightarrow> one_selected s2"
    using A by (blast dest: one_selected_cases)
  have T2: "\<And>s2. toggleAnnotationsMenu True ?s1 = Inr s2 \<Longrightarrow> refs_ok s2 \<and> one_selected s2"
    using A assms(1) by (blast dest: one_selected_cases refs_selection_cases intro: refs_disable_controls)
  have H: "\<And>i s2 s3 e. highlightAnnotation i False now s2 = Inl (e, s3) \<Longrightarrow>
      refs_ok s2 \<and> one_selected s2 \<Longrightarrow> one_selected s3"
    "\<And>i s2 s3. highlightAnnotation i False now s2 = Inr s3 \<Longrightarrow>
      refs_ok s2 \<and> one_selected s2 \<Longrightarrow> one_selected s3"
    by (blast dest: one_selected_cases)+
  show ?thesis
    using assms(2) A
    by (auto simp: onAnnotationPointerDown_def Let_def
        split: option.splits sum.splits prod.splits dest!: T T2 dest: H)
qed

lemma one_selected_pointerdown:
  "refs_ok s \<Longrightarrow> one_selected s \<Longrightarrow> one_selected (pointerdown ev now s)"
  using one_selected_onAnnotationPointerDown [of s ev now]
  by (auto simp: pointerdown_def one_selected_quiet_steps split: prod.splits)

lemma one_selected_annotationItem_click:
  "refs_ok s \<Longrightarrow> one_selected s \<Longrightarrow> one_selected (state_of (annotationItem_click i now s))"
  by (auto simp: annotationItem_click_def one_selected_quiet_steps
      split: option.splits sum.splits dest: one_selected_cases)

lemma one_selected_loadStage_resume:
  "one_selected s \<Longrightarrow> one_selected (loadStage_resume index outcome s)"
proof -
  assume a: "one_selected s"
  have 1: "\<And>stage. one_selected (state_of (apply_stage_settings stage s))"
    using a
    by (subst one_selected_same [of _ s])
       (simp_all add: apply_stage_settings_def Let_def split: option.splits)
  have c1: "\<And>stage e s1. apply_stage_settings stage s = Inl (e, s1) \<Longrightarrow> one_selected s1"
    using 1 by (metis state_of_simps(1))
  show ?thesis using a
    by (auto simp: loadStage_resume_def one_selected_quiet_steps
        split: load_outcome.splits option.splits sum.splits prod.splits
        dest: c1 one_selected_cases)
qed

lemma one_selected_step:
  "refs_ok s \<Longrightarrow> one_selected s \<Longrightarrow> one_selected (step orbitUpdate e s)"
  by (cases e)
    (auto simp: one_selected_loadStage_resume one_selected_pointerdown
      one_selected_annotationItem_click
      intro: quiet_one_selected [OF quiet_small_steps(1)] quiet_one_selected [OF quiet_small_steps(2)]
        quiet_one_selected [OF quiet_small_steps(3)] quiet_one_selected [OF quiet_small_steps(4)]
        quiet_one_selected [OF quiet_small_steps(5)] quiet_one_selected [OF quiet_small_steps(6)]
        quiet_one_selected [OF quiet_small_steps(7)]
        quiet_one_selected [OF quiet_onAnnotationHover] quiet_one_selected [OF quiet_annotationItem(1)]
        quiet_one_selected [OF quiet_annotationItem(2)] quiet_one_selected [OF quiet_animate]
        quiet_one_selected [OF quiet_toggleAnnotationsMenu])

lemma one_selected_run:
  "refs_ok s \<Longrightarrow> one_selected s \<Longrightarrow> one_selected (run orbitUpdate events s)"
  unfolding run_def
  by (induction events arbitrary: s) (simp_all add: one_selected_step refs_step)

lemma one_selected_reachable:
  "length (selected_indices (run orbitUpdate events initial_state)) \<le> 1"
proof -
  have "refs_ok initial_state" "one_selected initial_state"
    by (simp_all add: refs_ok_def one_selected_def selected_indices_def initial_state_def)
  then have "one_selected (run orbitUpdate events initial_state)" by (rule one_selected_run)
  then show ?thesis by (simp add: one_selected_def)
qed

lemma example_loaded_refs_ok: "refs_ok example_loaded"
  by (simp add: refs_ok_def example_loaded_def example_annotations_def)

text \<open>
  C5. In a state whose annotation references are well-formed and whose annotations list
  element exists, for any two indices \<open>A\<close> and \<open>B\<close> of the current stage: selecting
  \<open>A\<close> and then \<open>B\<close> returns normally both times; after the first call exactly \<open>A\<close>
  and after the second exactly \<open>B\<close> is at the selected tier \<open>(2.0, 1.0)\<close>, every other
  annotation of the stage (so \<open>A\<close>, when it differs from \<open>B\<close>) is at the idle tier
  \<open>(1.0, 0.01)\<close>, and the recorded selected index is \<open>B\<close>.
\<close>

theorem select_A_then_B:
  assumes "refs_ok s" and "annotationsList s"
    and "0 \<le> A" and "nat A < length (currentAnnotations s)"
    and "0 \<le> B" and "nat B < length (currentAnnotations s)"
  shows "\<exists>s1 s2. highlightAnnotation A False t1 s = Inr s1
           \<and> highlightAnnotation B False t2 s1 = Inr s2
           \<and> selectedAnnotationIndex s2 = B
           \<and> (\<forall>i. 0 \<le> i \<and> nat i < length (currentAnnotations s) \<longrightarrow>
                  targets_at s1 i = Some (if i = A then (2, 1) else (1, 0.01)))
           \<and> (\<forall>i. 0 \<le> i \<and> nat i < length (currentAnnotations s) \<longrightarrow>
                  targets_at s2 i = Some (if i = B then (2, 1) else (1, 0.01)))"
proof -
  from highlightAnnotation_in_range [OF assms(1-4), of t1]
  obtain s1 where s1: "highlightAnnotation A False t1 s = Inr s1"
    "currentAnnotations s1 = currentAnnotations s" "refs_ok s1" "annotationsList s1"
    "\<forall>i. 0 \<le> i \<and> nat i < length (currentAnnotations s) \<longrightarrow>
        targets_at s1 i = Some (if i = A then (2, 1) else (1, 0.01))"
    by blast
  have B1: "nat B < length (currentAnnotations s1)" using assms(6) by (simp add: s1)
  from highlightAnnotation_in_range [OF s1(3) s1(4) assms(5) B1, of t2]
  obtain s2 where s2: "highlightAnnotation B False t2 s1 = Inr s2"
    "selectedAnnotationIndex s2 = B"
    "\<forall>i. 0 \<le> i \<and> nat i < length (currentAnnotations s1) \<longrightarrow>
        targets_at s2 i = Some (if i = B then (2, 1) else (1, 0.01))"
    by blast
  from s1 s2 show ?thesis by (simp add: s1(2))
qed

theorem select_A_then_B_witness:
  "refs_ok example_loaded \<and> annotationsList example_loaded
   \<and> (\<exists>s1 s2. highlightAnnotation 0 False 1000 example_loaded = Inr s1
          \<and> highlightAnnotation 1 False 2000 s1 = Inr s2
          \<and> selectedAnnotationIndex s2 = 1
          \<and> targets_at s1 0 = Some (2, 1) \<and> targets_at s1 1 = Some (1, 0.01)
          \<and> targets_at s2 0 = Some (1, 0.01) \<and> targets_at s2 1 = Some (2, 1))"
proof -
  have h: "refs_ok example_loaded" "annotationsList example_loaded"
    "(0::int) \<le> 0" "nat 0 < length (currentAnnotations example_loaded)"
    "(0::int) \<le> 1" "nat 1 < length (currentAnnotations example_loaded)"
    by (simp_all add: example_loaded_refs_ok) (simp_all add: example_loaded_def)
  from select_A_then_B [OF h, of 1000 2000]
  obtain s1 s2 where r: "highlightAnnotation 0 False 1000 example_loaded = Inr s1"
    "highlightAnnotation 1 False 2000 s1 = Inr s2" "selectedAnnotationIndex s2 = 1"
    "\<forall>i. 0 \<le> i \<and> nat i < length (currentAnnotations example_loaded) \<longrightarrow>
        targets_at s1 i = Some (if i = 0 then (2, 1) else (1, 0.01))"
    "\<forall>i. 0 \<le> i \<and> nat i < length (currentAnnotations example_loaded) \<longrightarrow>
        targets_at s2 i = Some (if i = 1 then (2, 1) else (1, 0.01))"
    by blast
  have len: "length (currentAnnotations example_loaded) = 2" by (simp add: example_loaded_def)
  from r(4) [rule_format, of 0] r(4) [rule_format, of 1]
       r(5) [rule_format, of 0] r(5) [rule_format, of 1] len
  have "targets_at s1 0 = Some (2, 1)" "targets_at s1 1 = Some (1, 0.01)"
       "targets_at s2 0 = Some (1, 0.01)" "targets_at s2 1 = Some (2, 1)"
    by simp_all
  with r(1-3) h(1,2) show ?thesis by blast
qed


text \<open>
  C10. Selecting an index that has no annotation in the current stage returns normally
  (the annotations list element existing), leaves the camera tween variables as they
  were, records the index as the selected index and puts every annotation of the stage
  at the idle tier \<open>(1.0, 0.01)\<close>.
\<close>

theorem highlight_out_of_range:
  assumes "refs_ok s" and "annotationsList s" and "nth_opt (currentAnnotations s) index = None"
  shows "\<exists>s1. highlightAnnotation index showModal now s = Inr s1
           \<and> tween_of s1 = tween_of s
           \<and> selectedAnnotationIndex s1 = index
           \<and> currentAnnotations s1 = currentAnnotations s
           \<and> (\<forall>i. 0 \<le> i \<and> nat i < length (currentAnnotations s) \<longrightarrow>
                  targets_at s1 i = Some (1, 0.01))"
proof -
  define r where "r = reset_targets (s\<lparr> selectedAnnotationIndex := index \<rparr>)"
  have eq: "highlightAnnotation index showModal now s = Inr r"
    using assms(2,3) by (simp add: highlightAnnotation_def Let_def r_def[symmetric]) (simp add: r_def)
  have t: "\<And>i. 0 \<le> i \<Longrightarrow> nat i < length (currentAnnotations s) \<Longrightarrow>
      targets_at r i = Some (1, 0.01)"
    unfolding r_def using assms(1) by (intro targets_at_reset_targets) (simp_all add: refs_ok_def)
  have "tween_of r = tween_of s" by (simp add: r_def) (simp add: tween_of_def)
  with eq t show ?thesis by (simp add: r_def)
qed

theorem highlight_out_of_range_witness:
  "refs_ok example_loaded \<and> annotationsList example_loaded
   \<and> nth_opt (currentAnnotations example_loaded) 7 = None
   \<and> (\<exists>s1. highlightAnnotation 7 False 1000 example_loaded = Inr s1
         \<and> \<not> camMoveActive s1 \<and> selectedAnnotationIndex s1 = 7
         \<and> targets_at s1 0 = Some (1, 0.01) \<and> targets_at s1 1 = Some (1, 0.01))"
proof -
  have h: "refs_ok example_loaded" "annotationsList example_loaded"
    "nth_opt (currentAnnotations example_loaded) 7 = None"
    by (simp_all add: example_loaded_refs_ok) (simp_all add: example_loaded_def nth_opt_def)
  from highlight_out_of_range [OF h, of False 1000]
  obtain s1 where r: "highlightAnnotation 7 False 1000 example_loaded = Inr s1"
    "tween_of s1 = tween_of example_loaded" "selectedAnnotationIndex s1 = 7"
    "\<forall>i. 0 \<le> i \<and> nat i < length (currentAnnotations example_loaded) \<longrightarrow>
        targets_at s1 i = Some (1, 0.01)"
    by blast
  have len: "length (currentAnnotations example_loaded) = 2" by (simp add: example_loaded_def)
  from r(4) [rule_format, of 0] r(4) [rule_format, of 1] len
  have t: "targets_at s1 0 = Some (1, 0.01)" "targets_at s1 1 = Some (1, 0.01)" by simp_all
  from r(2) have "\<not> camMoveActive s1" by (simp add: tween_of_def example_loaded_def)
  with r(1,3) t h show ?thesis by blast
qed


section \<open>Properties of the per-frame smoothing\<close>

lemma example_hovered_reachable: "run id example_hover_events initial_state = example_hovered"
proof -
  have "run id example_hover_events initial_state
          = run id [PointerMove (pointer_at 400 300 False (Some 0)), Frame 16] example_loaded"
    using example_loaded_reachable by (simp add: example_hover_events_def run_def)
  also have "\<dots> = example_hovered"
    by (simp add: run_def example_loaded_def example_hovered_def onAnnotationHover_def
        pointer_outside_def pointer_at_def viewer_camera_def example_viewer_def
        example_camera_def example_controls_def intersectedGroup_def nth_opt_def Let_def
        store_update_def set_targets_def animate_def animate_tween_def animate_panLock_def
        animate_annotations_def animate_annotation_def lerp_def example_annotations_def
        new_annotation_def)
  finally show ?thesis .
qed

lemmas example_state_defs = example_loaded_def example_hovered_def example_viewer_def
  example_camera_def example_controls_def example_annotations_def new_annotation_def
  pointer_at_def

lemmas observation_defs = targets_at_def visual_at_def nth_opt_def

text \<open>The per-frame smoothing of one annotation.\<close>

lemma lerp_tenth: "lerp a b 0.1 = a + (b - a) * 0.1"
  by (simp add: lerp_def field_simps)

lemma tier_ok_nonzero: "tier_ok g \<Longrightarrow> targetScale g \<noteq> 0 \<and> targetOpacity g \<noteq> 0"
  by (auto simp: tier_ok_def)

lemma animate_annotation_step:
  assumes "tier_ok g"
  shows "scale (animate_annotation g) =
           (if \<bar>scale g - targetScale g\<bar> > 0.001
            then scale g + (targetScale g - scale g) * 0.1 else scale g)"
    and "fillOpacity (animate_annotation g) =
           (if \<bar>fillOpacity g - targetOpacity g\<bar> > 0.001
            then fillOpacity g + (targetOpacity g - fillOpacity g) * 0.1 else fillOpacity g)"
    and "targetScale (animate_annotation g) = targetScale g"
    and "targetOpacity (animate_annotation g) = targetOpacity g"
  using tier_ok_nonzero [OF assms]
  by (simp_all add: animate_annotation_def Let_def lerp_tenth)

lemma smoothing_approaches:
  fixes cur tgt new :: real
  assumes "new = (if \<bar>cur - tgt\<bar> > 0.001 then cur + (tgt - cur) * 0.1 else cur)"
  shows "\<bar>new - tgt\<bar> \<le> \<bar>cur - tgt\<bar>
         \<and> (cur \<le> tgt \<longrightarrow> cur \<le> new \<and> new \<le> tgt)
         \<and> (tgt \<le> cur \<longrightarrow> tgt \<le> new \<and> new \<le> cur)"
proof (cases "\<bar>cur - tgt\<bar> > 0.001")
  case False
  with assms show ?thesis by simp
next
  case True
  with assms have n: "new = cur + (tgt - cur) / 10" by simp
  have 1: "\<bar>new - tgt\<bar> \<le> \<bar>cur - tgt\<bar>"
    unfolding n by (simp add: abs_if field_simps)
  have 2: "cur \<le> tgt \<longrightarrow> cur \<le> new \<and> new \<le> tgt"
    unfolding n by (simp add: field_simps)
  have 3: "tgt \<le> cur \<longrightarrow> tgt \<le> new \<and> new \<le> cur"
    unfolding n by (simp add: field_simps)
  from 1 2 3 show ?thesis by blast
qed

text \<open>
  One frame moves the scale and the fill opacity of an annotation by a tenth of the
  remaining distance, or not at all once the distance is at most 0.001; the distance to
  the target does not grow and the value does not pass its target.
\<close>

lemma animate_annotation_approaches:
  assumes "tier_ok g"
  shows "\<bar>scale (animate_annotation g) - targetScale g\<bar> \<le> \<bar>scale g - targetScale g\<bar>
         \<and> (scale g \<le> targetScale g \<longrightarrow>
              scale g \<le> scale (animate_annotation g)
              \<and> scale (animate_annotation g) \<le> targetScale g)
         \<and> (targetScale g \<le> scale g \<longrightarrow>
              targetScale g \<le> scale (animate_annotation g)
              \<and> scale (animate_annotation g) \<le> scale g)"
    and "\<bar>fillOpacity (animate_annotation g) - targetOpacity g\<bar>
           \<le> \<bar>fillOpacity g - targetOpacity g\<bar>
         \<and> (fillOpacity g \<le> targetOpacity g \<longrightarrow>
              fillOpacity g \<le> fillOpacity (animate_annotation g)
              \<and> fillOpacity (animate_annotation g) \<le> targetOpacity g)
         \<and> (targetOpacity g \<le> fillOpacity g \<longrightarrow>
              targetOpacity g \<le> fillOpacity (animate_annotation g)
              \<and> fillOpacity (animate_annotation g) \<le> fillOpacity g)"
  by (rule smoothing_approaches [OF animate_annotation_step(1) [OF assms]])
     (rule smoothing_approaches [OF animate_annotation_step(2) [OF assms]])

text \<open>
  C4. The frame loop smooths scale and fill opacity as the claim says (lemmas
  \<open>animate_annotation_step\<close> and \<open>animate_annotation_approaches\<close>), but the visual
  state is snapped elsewhere: a pointer move outside the container's rectangle, while an
  annotation is the hovered one, writes scale 1 and fill opacity 0.01 at once and leaves
  the targets at the hovered tier, so that the next frame grows the annotation again.
\<close>

theorem hover_outside_snaps:
  "pointer_outside (pointer_at (- 1) 300 False None)
   \<and> visual_at example_hovered 0 = Some (1.05, 0.089)
   \<and> targets_at example_hovered 0 = Some (1.5, 0.8)
   \<and> visual_at (onAnnotationHover (pointer_at (- 1) 300 False None) example_hovered) 0
        = Some (1, 0.01)
   \<and> targets_at (onAnnotationHover (pointer_at (- 1) 300 False None) example_hovered) 0
        = Some (1.5, 0.8)
   \<and> hoveredAnnotation (onAnnotationHover (pointer_at (- 1) 300 False None) example_hovered)
        = None
   \<and> visual_at (animate id 32
         (onAnnotationHover (pointer_at (- 1) 300 False None) example_hovered)) 0
        = Some (1.05, 0.089)"
  by (simp add: onAnnotationHover_def pointer_outside_def example_state_defs observation_defs
      store_update_def animate_def animate_tween_def animate_panLock_def
      animate_annotations_def animate_annotation_def lerp_def Let_def)

section \<open>Properties of hover and selection\<close>

lemma example_selected_eq:
  "example_selected =
     example_loaded\<lparr> selectedAnnotationIndex := 0,
       heap := [(new_annotation (example_annotations ! 0))\<lparr> targetScale := 2, targetOpacity := 1 \<rparr>,
                new_annotation (example_annotations ! 1)],
       camMoveDuration := 1500, camMoveStart := 1000, camMoveActive := True,
       camStartPos := Vector3 0 (- 5) 10, camStartTarget := Vector3 0 0 0,
       camTargetPos := Vector3 0 0 5, camTargetTarget := Vector3 1 0 0 \<rparr>"
  by (simp add: example_selected_def highlightAnnotation_def reset_targets_def Let_def
      example_state_defs nth_opt_def store_update_def set_targets_def moveCameraTo_def)

text \<open>
  The claim C6 fails: with the first annotation selected, a pointer move onto it lowers
  its targets from the selected tier to the hovered tier \<open>(1.5, 0.8)\<close>, and the next
  pointer move over empty space lowers them to the idle tier, while the annotation is
  still the selected one.
\<close>

theorem selected_hover_demotes:
  "selectedAnnotationIndex example_selected = 0
   \<and> targets_at example_selected 0 = Some (2, 1)
   \<and> \<not> pointer_outside (pointer_at 400 300 False (Some 0))
   \<and> targets_at (onAnnotationHover (pointer_at 400 300 False (Some 0)) example_selected) 0
        = Some (1.5, 0.8)
   \<and> targets_at (onAnnotationHover (pointer_at 400 300 False (Some 0)) example_selected) 0
        \<noteq> Some (2, 1)
   \<and> targets_at (onAnnotationHover (pointer_at 10 10 False None)
         (onAnnotationHover (pointer_at 400 300 False (Some 0)) example_selected)) 0
        = Some (1, 0.01)
   \<and> selectedAnnotationIndex (onAnnotationHover (pointer_at 10 10 False None)
         (onAnnotationHover (pointer_at 400 300 False (Some 0)) example_selected)) = 0"
  by (simp add: example_selected_eq onAnnotationHover_def pointer_outside_def
      example_state_defs observation_defs store_update_def set_targets_def viewer_camera_def
      intersectedGroup_def Let_def)

lemma targets_at_store_update:
  assumes "nth_opt (currentAnnotations s) i = Some g" and "g < length h"
  shows "targets_at (s\<lparr> hoveredAnnotation := x, heap := store_update g (set_targets a b) h \<rparr>) i
           = Some (a, b)"
  using assms by (simp add: targets_at_def nth_opt_def store_update_def set_targets_def)

text \<open>
  C6, amended. It is the hover exit of a menu row that respects selection: \<open>mouseleave\<close>
  of the row whose index is the selected index changes nothing. A pointer hover entry
  onto an annotation, selected or not, makes it the hovered one and sets its targets to
  the hovered tier \<open>(1.5, 0.8)\<close>; a further pointer move over the annotation that is
  already the hovered one is a no-op.
\<close>

theorem hover_and_selection:
  "(int index = selectedAnnotationIndex s \<longrightarrow> annotationItem_mouseleave index s = s)
   \<and> (\<not> pointer_outside ev \<and> viewer_camera s \<and> refs_ok s
        \<and> annotationHit ev = Some i \<and> i < length (currentAnnotations s)
        \<and> hoveredAnnotation s \<noteq> Some (currentAnnotations s ! i) \<longrightarrow>
          hoveredAnnotation (onAnnotationHover ev s) = Some (currentAnnotations s ! i)
          \<and> targets_at (onAnnotationHover ev s) (int i) = Some (1.5, 0.8))
   \<and> (\<not> pointer_outside ev \<and> viewer_camera s
        \<and> annotationHit ev = Some i \<and> i < length (currentAnnotations s)
        \<and> hoveredAnnotation s = Some (currentAnnotations s ! i) \<longrightarrow>
          onAnnotationHover ev s = s)"
proof -
  have leave: "annotationItem_mouseleave index s = s" if "int index = selectedAnnotationIndex s"
    using that by (simp add: annotationItem_mouseleave_def)
  have enter: "hoveredAnnotation (onAnnotationHover ev s) = Some (currentAnnotations s ! i)
          \<and> targets_at (onAnnotationHover ev s) (int i) = Some (1.5, 0.8)"
    if a: "\<not> pointer_outside ev \<and> viewer_camera s \<and> refs_ok s
        \<and> annotationHit ev = Some i \<and> i < length (currentAnnotations s)
        \<and> hoveredAnnotation s \<noteq> Some (currentAnnotations s ! i)"
  proof -
    let ?g = "currentAnnotations s ! i"
    have hit: "intersectedGroup ev s = Some ?g"
      using a by (simp add: intersectedGroup_def nth_opt_def)
    have g: "?g < length (heap s)" "nth_opt (currentAnnotations s) (int i) = Some ?g"
      using a by (simp_all add: refs_ok_def list_all_length nth_opt_def)
    show ?thesis
    proof (cases "hoveredAnnotation s")
      case None
      with a hit g show ?thesis
        by (simp add: onAnnotationHover_def Let_def targets_at_store_update)
    next
      case (Some h)
      with a have "h \<noteq> ?g" by simp
      with a hit g Some show ?thesis
        by (simp add: onAnnotationHover_def Let_def targets_at_store_update)
    qed
  qed
  have again: "onAnnotationHover ev s = s"
    if a: "\<not> pointer_outside ev \<and> viewer_camera s
        \<and> annotationHit ev = Some i \<and> i < length (currentAnnotations s)
        \<and> hoveredAnnotation s = Some (currentAnnotations s ! i)"
  proof -
    from a have "intersectedGroup ev s = Some (currentAnnotations s ! i)"
      by (simp add: intersectedGroup_def nth_opt_def)
    with a show ?thesis
      by (simp add: onAnnotationHover_def Let_def)
  qed
  from leave enter again show ?thesis by blast
qed

lemma example_selected_facts:
  "viewer_camera example_selected" "refs_ok example_selected"
  "currentAnnotations example_selected = [0, 1]" "hoveredAnnotation example_selected = None"
  "selectedAnnotationIndex example_selected = 0"
  by (simp_all add: example_selected_eq viewer_camera_def refs_ok_def example_loaded_def
      example_viewer_def)

theorem hover_and_selection_witness:
  "int 0 = selectedAnnotationIndex example_selected
   \<and> annotationItem_mouseleave 0 example_selected = example_selected
   \<and> targets_at example_selected 0 = Some (2, 1)
   \<and> targets_at (onAnnotationHover (pointer_at 400 300 False (Some 0)) example_selected) 0
        = Some (1.5, 0.8)
   \<and> onAnnotationHover (pointer_at 400 300 False (Some 0)) example_hovered = example_hovered"
proof -
  let ?ev = "pointer_at 400 300 False (Some 0)"
  have ev: "\<not> pointer_outside ?ev" "annotationHit ?ev = Some 0"
    by (simp_all add: pointer_outside_def pointer_at_def)
  have h: "viewer_camera example_hovered" "currentAnnotations example_hovered = [0, 1]"
    "hoveredAnnotation example_hovered = Some 0"
    by (simp_all add: example_hovered_def example_loaded_def viewer_camera_def example_viewer_def)
  have t: "targets_at example_selected 0 = Some (2, 1)"
    by (simp add: example_selected_eq example_state_defs observation_defs)
  from hover_and_selection [of 0 example_selected ?ev 0]
       hover_and_selection [of 0 example_hovered ?ev 0]
       ev h t example_selected_facts
  show ?thesis by simp
qed

section \<open>Properties of the zoom lock\<close>

text \<open>
  The claim C7 fails: the first example stage defines its own zoom range \<open>(5, 20)\<close>, and
  with this stage loaded \<open>setZoomLock(1, 100)\<close> rewrites the bounds of the orbit controls
  to \<open>(1, 100)\<close>.
\<close>

theorem setZoomLock_overrides_stage_range:
  "nth_opt (constructionStages example_loaded) 0 = Some (example_stages ! 0)
   \<and> minZoom (example_stages ! 0) = Some 5 \<and> maxZoom (example_stages ! 0) = Some 20
   \<and> distance_bounds example_loaded = Some (Finite 5, Finite 20)
   \<and> distance_bounds (setZoomLock (Finite 1) (Finite 100) example_loaded)
        = Some (Finite 1, Finite 100)"
  by (simp add: example_state_defs example_stages_def nth_opt_def distance_bounds_def
      setZoomLock_def set_distances_def)

lemma distance_bounds_setZoomLock:
  "distance_bounds (setZoomLock lo hi s) = (if distance_bounds s = None then None else Some (lo, hi))"
  by (simp add: distance_bounds_def setZoomLock_def set_distances_def split: option.splits)

lemma loadStage_begin_fresh:
  assumes "\<not> isLoading s" and "nth_opt (constructionStages s) (int index) = Some stage"
  shows "loadStage_begin index s = s\<lparr> isLoading := True, viewer := Some (new_Viewer stage) \<rparr>"
  using assms by (simp add: loadStage_begin_def Let_def split: option.splits)

lemma distance_bounds_after_settings:
  assumes "viewer s = Some (new_Viewer stage)"
  shows "\<exists>s1. apply_stage_settings stage s = Inr s1
           \<and> distance_bounds s1 = Some (spec_zoom_range stage s)
           \<and> constructionStages s1 = constructionStages s"
  using assms
  by (auto simp: apply_stage_settings_def new_Viewer_def Let_def distance_bounds_def
      spec_zoom_range_def split: option.splits)

lemma distance_bounds_addAnnotations:
  "distance_bounds (state_of (addAnnotations index fetched s)) = distance_bounds s"
  by (simp add: addAnnotations_def Let_def distance_bounds_def populateAnnotationsMenu_def
      split: option.splits)

lemma distance_bounds_frame:
  "distance_bounds (createMovableDot s) = distance_bounds s"
  "distance_bounds (s\<lparr> isLoading := b \<rparr>) = distance_bounds s"
  by (simp_all add: distance_bounds_def createMovableDot_def)

lemma spec_zoom_range_frame:
  "spec_zoom_range stage (s\<lparr> isLoading := b, viewer := v \<rparr>) = spec_zoom_range stage s"
  by (simp add: spec_zoom_range_def)

text \<open>
  C7, amended. \<open>setZoomLock\<close> rewrites the distance bounds of the live orbit controls
  whenever there are any, whatever the active stage defines. A stage load from begin to
  end (the scene loading, the stage in the list) leaves the bounds at the range the
  precedence of the specification gives: the stage's own range when it has both ends,
  else the global fallback when the zoom lock is enabled, else \<open>(0, \<infinity>)\<close>.
\<close>

theorem zoom_bounds:
  "(distance_bounds s \<noteq> None \<longrightarrow>
      distance_bounds (setZoomLock lo hi s) = Some (lo, hi))
   \<and> (\<not> isLoading s \<and> nth_opt (constructionStages s) (int index) = Some stage \<longrightarrow>
        distance_bounds (loadStage_resume index (SceneLoaded fetched) (loadStage_begin index s))
          = Some (spec_zoom_range stage s))"
proof -
  have load: "distance_bounds
      (loadStage_resume index (SceneLoaded fetched) (loadStage_begin index s))
        = Some (spec_zoom_range stage s)"
    if a: "\<not> isLoading s \<and> nth_opt (constructionStages s) (int index) = Some stage"
  proof -
    define s0 where "s0 = s\<lparr> isLoading := True, viewer := Some (new_Viewer stage) \<rparr>"
    have b: "loadStage_begin index s = s0"
      using a by (simp add: loadStage_begin_fresh s0_def)
    have st: "nth_opt (constructionStages s0) (int index) = Some stage"
      using a by (simp add: s0_def)
    from distance_bounds_after_settings [of s0 stage]
    obtain s1 where s1: "apply_stage_settings stage s0 = Inr s1"
      "distance_bounds s1 = Some (spec_zoom_range stage s0)"
      by (auto simp: s0_def)
    have z: "spec_zoom_range stage s0 = spec_zoom_range stage s"
      by (simp add: s0_def spec_zoom_range_frame)
    have "loadStage_resume index (SceneLoaded fetched) s0
            = (createMovableDot (state_of (addAnnotations index fetched s1)))\<lparr> isLoading := False \<rparr>
          \<or> loadStage_resume index (SceneLoaded fetched) s0
            = (state_of (addAnnotations index fetched s1))\<lparr> isLoading := False \<rparr>"
      using st s1(1) by (simp add: loadStage_resume_def split: sum.splits prod.splits)
    then have "distance_bounds (loadStage_resume index (SceneLoaded fetched) s0)
            = distance_bounds s1"
      by (auto simp: distance_bounds_frame distance_bounds_addAnnotations)
    with s1(2) z b show ?thesis by simp
  qed
  from load show ?thesis by (simp add: distance_bounds_setZoomLock)
qed

theorem zoom_bounds_witness:
  "distance_bounds example_loaded \<noteq> None
   \<and> distance_bounds (setZoomLock (Finite 1) (Finite 100) example_loaded)
        = Some (Finite 1, Finite 100)
   \<and> \<not> isLoading (setZoomLock (Finite 1) (Finite 100) example_loaded)
   \<and> distance_bounds (loadStage_resume 0 (SceneLoaded None)
         (loadStage_begin 0 (setZoomLock (Finite 1) (Finite 100) example_loaded)))
        = Some (Finite 5, Finite 20)
   \<and> distance_bounds (loadStage_resume 1 (SceneLoaded None)
         (loadStage_begin 1 (setZoomLock (Finite 1) (Finite 100) example_loaded)))
        = Some (Finite 1, Finite 100)
   \<and> distance_bounds (loadStage_resume 1 (SceneLoaded None) (loadStage_begin 1 example_loaded))
        = Some (Finite 0, Infinity)"
proof -
  let ?z = "setZoomLock (Finite 1) (Finite 100) example_loaded"
  have z: "\<not> isLoading ?z" "constructionStages ?z = example_stages" "zoomLockEnabled ?z"
    "zoomMinDistance ?z = Finite 1" "zoomMaxDistance ?z = Finite 100"
    by (simp_all add: setZoomLock_def set_distances_def example_loaded_def example_viewer_def
        example_controls_def)
  have l: "\<not> isLoading example_loaded" "constructionStages example_loaded = example_stages"
    "\<not> zoomLockEnabled example_loaded" "distance_bounds example_loaded \<noteq> None"
    by (simp_all add: example_loaded_def distance_bounds_def example_viewer_def
        example_controls_def)
  have st: "nth_opt example_stages (int 0) = Some (example_stages ! 0)"
    "nth_opt example_stages (int 1) = Some (example_stages ! 1)"
    by (simp_all add: nth_opt_def example_stages_def)
  have r: "spec_zoom_range (example_stages ! 0) ?z = (Finite 5, Finite 20)"
    "spec_zoom_range (example_stages ! 1) ?z = (Finite 1, Finite 100)"
    "spec_zoom_range (example_stages ! 1) example_loaded = (Finite 0, Infinity)"
    by (simp_all add: spec_zoom_range_def z l) (simp_all add: example_stages_def)
  from zoom_bounds [of example_loaded "Finite 1" "Finite 100"]
       zoom_bounds [of ?z _ _ 0 "example_stages ! 0" None]
       zoom_bounds [of ?z _ _ 1 "example_stages ! 1" None]
       zoom_bounds [of example_loaded _ _ 1 "example_stages ! 1" None]
       z l st r
  show ?thesis by simp
qed

section \<open>Properties of stage loading\<close>

text \<open>
  The claim C8 fails: with the first stage shown, beginning to load the second replaces
  the viewer at once, so no scene is shown while the load is in flight, and when the load
  fails the previous scene is not back.
\<close>

theorem load_replaces_scene_at_start:
  "\<not> isLoading example_loaded
   \<and> scene example_loaded = Some ''stage0.ksplat''
   \<and> isLoading (loadStage_begin 1 example_loaded)
   \<and> scene (loadStage_begin 1 example_loaded) = None
   \<and> \<not> isLoading (loadStage_resume 1 SceneFailed (loadStage_begin 1 example_loaded))
   \<and> scene (loadStage_resume 1 SceneFailed (loadStage_begin 1 example_loaded)) = None"
  by (simp add: example_loaded_def example_viewer_def example_stages_def scene_def
      loadStage_begin_def loadStage_resume_def nth_opt_def new_Viewer_def Let_def)

text \<open>
  C8, amended. While a load is in flight a call of \<open>loadStage\<close> changes nothing and
  queues nothing. A call that is accepted replaces the previous viewer by a new, still
  empty one before the stage's scene has loaded, and a failed load only clears the loading
  flag: the previous scene is not restored.
\<close>

theorem loadStage_guard:
  "(isLoading s \<longrightarrow> loadStage_begin index s = s)
   \<and> (\<not> isLoading s \<and> nth_opt (constructionStages s) (int index) = Some stage \<longrightarrow>
        loadStage_begin index s = s\<lparr> isLoading := True, viewer := Some (new_Viewer stage) \<rparr>
        \<and> scene (loadStage_begin index s) = None)
   \<and> loadStage_resume index SceneFailed s = s\<lparr> isLoading := False \<rparr>"
  by (simp add: loadStage_begin_fresh)
     (simp add: loadStage_begin_def loadStage_resume_def scene_def new_Viewer_def)

theorem loadStage_guard_witness:
  "isLoading (loadStage_begin 1 example_loaded)
   \<and> loadStage_begin 0 (loadStage_begin 1 example_loaded) = loadStage_begin 1 example_loaded
   \<and> \<not> isLoading example_loaded
   \<and> nth_opt (constructionStages example_loaded) (int 1) = Some (example_stages ! 1)
   \<and> viewer (loadStage_begin 1 example_loaded) = Some (new_Viewer (example_stages ! 1))
   \<and> scene (loadStage_begin 1 example_loaded) = None"
proof -
  have l: "\<not> isLoading example_loaded"
    "nth_opt (constructionStages example_loaded) (int 1) = Some (example_stages ! 1)"
    by (simp_all add: example_loaded_def nth_opt_def example_stages_def)
  from loadStage_guard [of example_loaded 1 "example_stages ! 1"] l
  have b: "loadStage_begin 1 example_loaded
             = example_loaded\<lparr> isLoading := True, viewer := Some (new_Viewer (example_stages ! 1)) \<rparr>"
    "scene (loadStage_begin 1 example_loaded) = None"
    by blast+
  then have i: "isLoading (loadStage_begin 1 example_loaded)" by simp
  from loadStage_guard [of "loadStage_begin 1 example_loaded" 0] i
  have "loadStage_begin 0 (loadStage_begin 1 example_loaded) = loadStage_begin 1 example_loaded"
    by simp
  with b i l show ?thesis by simp
qed

section \<open>Properties of pointer-down\<close>

text \<open>
  A visible dot under the pointer claims the pointer-down, whatever annotation the ray
  hits as well: the drag begins, the orbit controls are disabled, and nothing is selected.
\<close>

lemma visible_dot_claims:
  assumes "viewer_camera s" and "movableDot s = Some d" and "visible d" and "dotHit ev"
  shows "pointerdown ev now s = disable_controls (s\<lparr> isDraggingDot := True \<rparr>)"
  using assms
  by (simp add: pointerdown_def onAnnotationPointerDown_def onDotPointerDown_def Let_def)

text \<open>
  With the dot invisible, a pointer-down whose ray hits both the dot and an annotation
  selects the annotation and begins no drag.
\<close>

lemma invisible_dot_annotation_wins:
  "selectedAnnotationIndex (pointerdown (pointer_at 400 300 True (Some 1)) 1000 example_loaded) = 1
   \<and> \<not> isDraggingDot (pointerdown (pointer_at 400 300 True (Some 1)) 1000 example_loaded)"
  by (simp add: pointerdown_def onAnnotationPointerDown_def onDotPointerDown_def Let_def
      example_state_defs viewer_camera_def intersectedGroup_def nth_opt_def disable_controls_def
      toggleAnnotationsMenu_def populateAnnotationsMenu_def highlightAnnotation_def
      reset_targets_def store_update_def set_targets_def)

text \<open>
  C9. The dot claims a pointer-down also when it is not visible: \<open>onDotPointerDown\<close>
  does not test \<open>visible\<close>, which \<open>onAnnotationPointerDown\<close> does. With the dot
  invisible and no annotation under the pointer, a pointer-down whose ray hits the dot
  begins a drag and disables the orbit controls.
\<close>

theorem invisible_dot_drag:
  "movableDot example_loaded = Some \<lparr> dot_position = zero_vec, visible = False \<rparr>
   \<and> \<not> isDraggingDot example_loaded
   \<and> isDraggingDot (pointerdown (pointer_at 400 300 True None) 1000 example_loaded)
   \<and> (case viewer (pointerdown (pointer_at 400 300 True None) 1000 example_loaded) of
         None \<Rightarrow> False
       | Some v \<Rightarrow> (case controls v of None \<Rightarrow> False | Some k \<Rightarrow> \<not> enabled k))"
  by (simp add: pointerdown_def onAnnotationPointerDown_def onDotPointerDown_def Let_def
      example_state_defs viewer_camera_def intersectedGroup_def disable_controls_def)


section \<open>The duration of the tween in reachable states\<close>

text \<open>
  The script calls \<open>moveCameraTo\<close> with its default duration only, so the duration is
  1500 in every reachable state, and the tween step never divides by zero.
\<close>

lemma duration_moveCameraTo: "default_duration s \<Longrightarrow> default_duration (moveCameraTo p l 1500 now s)"
  by (simp add: default_duration_def moveCameraTo_def split: option.splits)

lemma duration_reset_targets: "default_duration (reset_targets s) = default_duration s"
  by (simp add: default_duration_def reset_targets_def)

lemma duration_highlightAnnotation:
  "default_duration s \<Longrightarrow> default_duration (state_of (highlightAnnotation i m now s))"
proof -
  assume a: "default_duration s"
  have r: "default_duration (reset_targets (s\<lparr> selectedAnnotationIndex := i \<rparr>))"
    using a by (simp add: duration_reset_targets) (simp add: default_duration_def)
  have h: "\<And>s a. default_duration s \<Longrightarrow>
      default_duration (s\<lparr> heap := store_update a (set_targets 2 1) (heap s) \<rparr>)"
    by (simp add: default_duration_def)
  show ?thesis
    using r
    by (auto simp: highlightAnnotation_def Let_def split: option.splits
        intro!: duration_moveCameraTo h)
qed

lemma duration_selection_cases:
  "highlightAnnotation i m now s = Inl (e, s') \<Longrightarrow> default_duration s \<Longrightarrow> default_duration s'"
  "highlightAnnotation i m now s = Inr s' \<Longrightarrow> default_duration s \<Longrightarrow> default_duration s'"
  using duration_highlightAnnotation [of s i m now] by simp_all

lemma duration_toggle:
  "default_duration s \<Longrightarrow> default_duration (state_of (toggleAnnotationsMenu b s))"
  using duration_reset_targets [of s]
  by (auto simp: toggleAnnotationsMenu_def Let_def populateAnnotationsMenu_def
      default_duration_def)

lemma duration_toggle_cases:
  "toggleAnnotationsMenu b s = Inl (e, s') \<Longrightarrow> default_duration s \<Longrightarrow> default_duration s'"
  "toggleAnnotationsMenu b s = Inr s' \<Longrightarrow> default_duration s \<Longrightarrow> default_duration s'"
  using duration_toggle [of s b] by simp_all

lemma duration_disable_controls: "default_duration (disable_controls s) = default_duration s"
  by (simp add: default_duration_def disable_controls_def split: option.splits)

lemma duration_pointerdown: "default_duration s \<Longrightarrow> default_duration (pointerdown ev now s)"
proof -
  assume a: "default_duration s"
  have 1: "default_duration (state_of (fst (onAnnotationPointerDown ev now s)))"
    using a
    by (auto simp: onAnnotationPointerDown_def Let_def duration_disable_controls
        split: option.splits sum.splits prod.splits
        dest: duration_selection_cases duration_toggle_cases)
  have 2: "\<And>s. default_duration s \<Longrightarrow> default_duration (onDotPointerDown ev s)"
    by (simp add: onDotPointerDown_def duration_disable_controls) (simp add: default_duration_def)
  from 1 2 show ?thesis
    by (auto simp: pointerdown_def split: prod.splits)
qed

lemma duration_annotationItem_click:
  "default_duration s \<Longrightarrow> default_duration (state_of (annotationItem_click i now s))"
  by (auto simp: annotationItem_click_def split: option.splits sum.splits
      dest: duration_selection_cases intro!: duration_moveCameraTo)

lemma duration_loadStage_resume:
  "default_duration s \<Longrightarrow> default_duration (loadStage_resume index outcome s)"
proof -
  assume a: "default_duration s"
  have 1: "\<And>stage. default_duration (state_of (apply_stage_settings stage s))"
    using a by (simp add: default_duration_def apply_stage_settings_def Let_def split: option.splits)
  have 2: "\<And>s f. default_duration (state_of (addAnnotations index f s)) = default_duration s"
    by (simp add: default_duration_def addAnnotations_def Let_def populateAnnotationsMenu_def
        split: option.splits)
  have 3: "\<And>s b. default_duration (s\<lparr> isLoading := b \<rparr>) = default_duration s"
    "\<And>s. default_duration (createMovableDot s) = default_duration s"
    by (simp_all add: default_duration_def createMovableDot_def)
  have c1: "\<And>stage e s1. apply_stage_settings stage s = Inl (e, s1) \<Longrightarrow> default_duration s1"
    "\<And>stage s1. apply_stage_settings stage s = Inr s1 \<Longrightarrow> default_duration s1"
    using 1 by (metis state_of_simps(1)) (metis 1 state_of_simps(2))
  have c2: "\<And>f e s1 s2. addAnnotations index f s1 = Inl (e, s2) \<Longrightarrow> default_duration s1 \<Longrightarrow> default_duration s2"
    "\<And>f s1 s2. addAnnotations index f s1 = Inr s2 \<Longrightarrow> default_duration s1 \<Longrightarrow> default_duration s2"
    using 2 by (metis state_of_simps(1)) (metis 2 state_of_simps(2))
  show ?thesis using a
    by (auto simp: loadStage_resume_def 3
        split: load_outcome.splits option.splits sum.splits prod.splits dest: c1 c2)
qed

lemma duration_animate: "default_duration (animate orbitUpdate now s) = default_duration s"
proof -
  have 1: "default_duration (animate_tween orbitUpdate now s) = default_duration s"
    by (simp add: default_duration_def animate_tween_def Let_def split: option.splits)
  have 2: "\<And>s. default_duration (animate_panLock s) = default_duration s"
    by (simp add: default_duration_def animate_panLock_def Let_def split: option.splits)
  have 3: "\<And>s. default_duration (animate_annotations s) = default_duration s"
    by (simp add: default_duration_def animate_annotations_def split: option.splits)
  show ?thesis by (simp add: animate_def 1 2 3)
qed

lemma duration_small_steps:
  "default_duration (pointerup s) = default_duration s"
  "default_duration (setZoomLock lo hi s) = default_duration s"
  "default_duration (clearZoomLock s) = default_duration s"
  "default_duration (devButton_click s) = default_duration s"
  "default_duration (initializeAnnotationsMenu s) = default_duration s"
  "default_duration (s\<lparr> constructionStages := stages \<rparr>) = default_duration s"
  "default_duration (loadStage_begin index s) = default_duration s"
  "default_duration (onAnnotationHover ev s) = default_duration s"
  "default_duration (annotationItem_mouseenter i s) = default_duration s"
  "default_duration (annotationItem_mouseleave i s) = default_duration s"
  by (simp_all add: default_duration_def pointerup_def setZoomLock_def clearZoomLock_def
      set_distances_def devButton_click_def initializeAnnotationsMenu_def loadStage_begin_def
      onAnnotationHover_def annotationItem_mouseenter_def annotationItem_mouseleave_def Let_def
      split: option.splits)

lemma duration_step: "default_duration s \<Longrightarrow> default_duration (step orbitUpdate e s)"
  by (cases e)
    (simp_all add: duration_small_steps duration_loadStage_resume duration_pointerdown
      duration_annotationItem_click duration_toggle duration_animate)

lemma duration_run: "default_duration s \<Longrightarrow> default_duration (run orbitUpdate events s)"
  unfolding run_def by (induction events arbitrary: s) (simp_all add: duration_step)

lemma duration_reachable: "camMoveDuration (run orbitUpdate events initial_state) = 1500"
proof -
  have "default_duration initial_state" by (simp add: default_duration_def initial_state_def)
  then have "default_duration (run orbitUpdate events initial_state)" by (rule duration_run)
  then show ?thesis by (simp add: default_duration_def)
qed

end
